theory Spec2Isabelle
  imports Main "HOL-Library.Sublist"
begin

section \<open>Values exchanged with the collaborators of app.js\<close>

text \<open>
  The keys of \<^verbatim>\<open>__constants.RESPONSE_MESSAGES\<close> that app.js reads. The table itself
  lives in \<^verbatim>\<open>config/constants\<close>; every other entry of it is \<open>OTHER_MESSAGE\<close>.
\<close>

datatype response_message = SERVER_TIMEOUT | INVALID_REQUEST | NOT_FOUND | OTHER_MESSAGE string

text \<open>
  A JavaScript error value, with the three properties the JSON error handler inspects:
  \<^verbatim>\<open>err instanceof SyntaxError\<close>, \<^verbatim>\<open>err.status\<close> and \<^verbatim>\<open>'body' in err\<close>.
\<close>

record js_error =
  is_syntax_error :: bool
  status :: "int option"
  has_body :: bool
  message :: string

datatype err_field = ErrList "string list" | ErrObject js_error

text \<open>
  The object literal handed to \<^verbatim>\<open>res.sendJson\<close>: \<^verbatim>\<open>{ type, data: { message }, err }\<close>.
  \<^verbatim>\<open>sendJson\<close> itself is installed on the response by a collaborator; a call of it is
  recorded as the effect \<open>SendJson\<close>, one write on the request's response.
\<close>

record payload =
  ptype :: response_message
  data_message :: "string option"
  err :: "err_field option"

text \<open>
  Everything app.js does to the outside world, in program order: console output, calls on
  the response object, on the backing store, on cluster, http, axios and process.
\<close>

datatype effect =
    ConsoleDebug string
  | ConsoleLog string
  | ConsoleLogError string "js_error option"
  | ConsoleLogListening nat string
  | ConsoleError string js_error
  | SendJson payload
  | Invoke string
  | FinalHandler "js_error option"
  | DbInit
  | DbClose
  | ClusterFork
  | HttpCreateServer
  | ServerListen nat
  | ServerClose
  | Require string
  | AxiosGet nat
  | ProcessExit int

section \<open>The middleware stack\<close>

text \<open>
  What a middleware that is not defined in app.js (helmet, body-parser, cors, the
  authentication layers, the business routes) does with one request: call \<^verbatim>\<open>next()\<close>,
  call \<^verbatim>\<open>next(err)\<close>, answer, or stay pending on I/O and come back later.
\<close>

datatype ext_result = ExtNext | ExtError js_error | ExtRespond payload | ExtPending

text \<open>
  One entry of the Express stack. \<open>External m name\<close> is a handler supplied by a
  collaborator, mounted on the paths that satisfy \<open>m\<close>; the other three are the
  functions written inline in \<^verbatim>\<open>runExpressServer\<close> (lines 58, 93 and 113).
\<close>

datatype layer =
    External "string \<Rightarrow> bool" string
  | TimeoutFilter
  | JsonErrorHandler
  | CatchAll

record request =
  path :: string
  timedout :: bool
  behaviour :: "string \<Rightarrow> ext_result"

text \<open>
  The per-request context: the effects so far, the number of listeners registered with
  \<^verbatim>\<open>req.on('timeout', ...)\<close>, and the layers still to run when a handler is pending.
\<close>

record res_ctx =
  effects :: "effect list"
  timeout_listeners :: nat
  pending :: "layer list option"

definition init_ctx :: res_ctx where
  "init_ctx = \<lparr>effects = [], timeout_listeners = 0, pending = None\<rparr>"

definition emit :: "effect \<Rightarrow> res_ctx \<Rightarrow> res_ctx" where
  "emit e c = c\<lparr>effects := effects c @ [e]\<rparr>"

definition client_timedout_payload :: payload where
  "client_timedout_payload =
     \<lparr>ptype = SERVER_TIMEOUT, data_message = Some ''request from client timedout'', err = None\<rparr>"

definition server_timedout_payload :: "string \<Rightarrow> payload" where
  "server_timedout_payload time =
     \<lparr>ptype = SERVER_TIMEOUT,
      data_message = Some (''server timed out after '' @ time @ '' milliseconds''),
      err = None\<rparr>"

definition invalid_request_payload :: payload where
  "invalid_request_payload =
     \<lparr>ptype = INVALID_REQUEST, data_message = None, err = Some (ErrList [''invalid request''])\<rparr>"

definition not_found_payload :: payload where
  "not_found_payload =
     \<lparr>ptype = NOT_FOUND, data_message = Some ''not found'',
      err = Some (ErrObject \<lparr>is_syntax_error = False, status = None, has_body = False,
                             message = ''Not Found''\<rparr>)\<rparr>"

definition is_json_parse_error :: "js_error \<Rightarrow> bool" where
  "is_json_parse_error e \<longleftrightarrow> is_syntax_error e \<and> status e = Some 400 \<and> has_body e"

text \<open>
  Express walks the stack in registration order. A handler of three arguments is skipped
  while an error is being propagated, a handler of four arguments is skipped otherwise;
  when the stack is exhausted the framework's final handler answers.

  The timeout filter calls \<^verbatim>\<open>next()\<close> first, which runs the rest of the stack up to the
  first pending handler, and registers its \<^verbatim>\<open>'timeout'\<close> listener after that.
  The JSON error handler calls \<^verbatim>\<open>next()\<close> without the error for every other error.
\<close>

fun dispatch :: "request \<Rightarrow> layer list \<Rightarrow> js_error option \<Rightarrow> res_ctx \<Rightarrow> res_ctx" where
  "dispatch req [] e c = emit (FinalHandler e) c"
| "dispatch req (External m name # ls) None c =
     (if m (path req) then
        (case behaviour req name of
           ExtNext \<Rightarrow> dispatch req ls None (emit (Invoke name) c)
         | ExtError e \<Rightarrow> dispatch req ls (Some e) (emit (Invoke name) c)
         | ExtRespond p \<Rightarrow> emit (SendJson p) (emit (Invoke name) c)
         | ExtPending \<Rightarrow> (emit (Invoke name) c)\<lparr>pending := Some ls\<rparr>)
      else dispatch req ls None c)"
| "dispatch req (External m name # ls) (Some e) c = dispatch req ls (Some e) c"
| "dispatch req (TimeoutFilter # ls) None c =
     (let c' = (if \<not> timedout req then dispatch req ls None c
                else emit (SendJson client_timedout_payload) c)
      in c'\<lparr>timeout_listeners := Suc (timeout_listeners c')\<rparr>)"
| "dispatch req (TimeoutFilter # ls) (Some e) c = dispatch req ls (Some e) c"
| "dispatch req (JsonErrorHandler # ls) None c = dispatch req ls None c"
| "dispatch req (JsonErrorHandler # ls) (Some e) c =
     (if is_json_parse_error e then
        emit (SendJson invalid_request_payload)
          (emit (ConsoleLogError ''Error while sending request (JSON invalid)'' (Some e)) c)
      else dispatch req ls None c)"
| "dispatch req (CatchAll # ls) None c = emit (SendJson not_found_payload) c"
| "dispatch req (CatchAll # ls) (Some e) c = dispatch req ls (Some e) c"

text \<open>A pending handler comes back with its result and the stack goes on from there.\<close>

definition resume :: "request \<Rightarrow> ext_result \<Rightarrow> res_ctx \<Rightarrow> res_ctx" where
  "resume req r c =
     (case pending c of
        None \<Rightarrow> c
      | Some ls \<Rightarrow>
          (case r of
             ExtNext \<Rightarrow> dispatch req ls None (c\<lparr>pending := None\<rparr>)
           | ExtError e \<Rightarrow> dispatch req ls (Some e) (c\<lparr>pending := None\<rparr>)
           | ExtRespond p \<Rightarrow> emit (SendJson p) (c\<lparr>pending := None\<rparr>)
           | ExtPending \<Rightarrow> c))"

text \<open>
  The listener of line 69, run once for each registration when the request emits
  \<^verbatim>\<open>'timeout'\<close>; \<open>time\<close> is the listener's first argument as the string concatenation
  renders it. The runtime emits the event when the socket has been idle for the server's
  timeout while the request's body has not been received completely, and passes the socket.
\<close>

definition on_timeout :: "string \<Rightarrow> res_ctx \<Rightarrow> res_ctx" where
  "on_timeout time c =
     emit (SendJson (server_timedout_payload time))
       (emit (ConsoleLog
          ''error :: inside ~function=runExpressServer. haltOnTimedout, server response timedout'') c)"

primrec fire_timeout :: "nat \<Rightarrow> string \<Rightarrow> res_ctx \<Rightarrow> res_ctx" where
  "fire_timeout 0 time c = c"
| "fire_timeout (Suc n) time c = fire_timeout n time (on_timeout time c)"

datatype req_event = Timeout string | Resume ext_result

fun req_step :: "request \<Rightarrow> res_ctx \<Rightarrow> req_event \<Rightarrow> res_ctx" where
  "req_step req c (Timeout time) = fire_timeout (timeout_listeners c) time c"
| "req_step req c (Resume r) = resume req r c"

definition handle_request :: "layer list \<Rightarrow> request \<Rightarrow> req_event list \<Rightarrow> res_ctx" where
  "handle_request st req evs = foldl (req_step req) (dispatch req st None init_ctx) evs"

text \<open>The payloads written to the response, and the collaborators' handlers that ran.\<close>

fun responses :: "effect list \<Rightarrow> payload list" where
  "responses [] = []"
| "responses (SendJson p # es) = p # responses es"
| "responses (_ # es) = responses es"


section \<open>The worker process\<close>

text \<open>
  \<^verbatim>\<open>__config\<close> as app.js reads it. \<open>clusterNumber\<close> is \<open>None\<close> when the key is
  not configured.
\<close>

record config =
  clusterNumber :: "int option"
  port :: nat
  addBaseUrlPrefix :: bool
  api_prefix :: string
  base_url :: string

text \<open>
  What the process finds around it: \<^verbatim>\<open>cluster.isMaster\<close>, \<^verbatim>\<open>process.env.PWD\<close>,
  \<^verbatim>\<open>__dirname\<close>, the files of the \<^verbatim>\<open>mongooseSchema\<close> directory, the handlers that
  \<^verbatim>\<open>authMiddleware.initialize\<close> and \<^verbatim>\<open>require('./routes')\<close> mount on the application
  (each with the paths it is mounted on and its name), and \<^verbatim>\<open>__constants.SERVER_TIMEOUT\<close>.
\<close>

record environment =
  is_master :: bool
  pwd :: string
  dirname :: string
  schema_dir :: "string list"
  auth_layers :: "((string \<Rightarrow> bool) \<times> string) list"
  route_layers :: "((string \<Rightarrow> bool) \<times> string) list"
  server_timeout :: nat

text \<open>
  The \<^verbatim>\<open>http.Server\<close> object: whether it still accepts connections, its timeout, and
  the listeners waiting for its \<^verbatim>\<open>'close'\<close> event, each with the argument its callback
  will be given.
\<close>

record server =
  listening :: bool
  srv_timeout :: "nat option"
  close_listeners :: "js_error option list"

record app =
  stack :: "layer list"
  settings :: "(string \<times> string) list"
  server :: "server option"

datatype signal = SIGINT | SIGTERM

datatype init_outcome = InitOk | InitErr js_error

datatype close_outcome = CloseResolved | CloseRejected js_error

datatype probe_outcome = ProbeOk | ProbeFailed js_error

record process =
  app :: app
  signal_handlers :: "signal list"
  uncaught_handler :: bool
  trace :: "effect list"
  awaiting_init :: bool
  awaiting_db_close :: "js_error option list"
  poll_interval :: "nat option"
  poll_timeout :: "nat option"
  probes_in_flight :: nat
  exit_code :: "int option"

definition empty_app :: app where
  "empty_app = \<lparr>stack = [], settings = [], server = None\<rparr>"

text \<open>The constructor of \<^verbatim>\<open>httpApiWorker\<close>: \<^verbatim>\<open>this.app = {}\<close>, nothing registered yet.\<close>

definition new_worker :: process where
  "new_worker =
     \<lparr>app = empty_app, signal_handlers = [], uncaught_handler = False, trace = [],
      awaiting_init = False, awaiting_db_close = [], poll_interval = None,
      poll_timeout = None, probes_in_flight = 0, exit_code = None\<rparr>"

definition log :: "effect \<Rightarrow> process \<Rightarrow> process" where
  "log e p = p\<lparr>trace := trace p @ [e]\<rparr>"

definition process_exit :: "int \<Rightarrow> process \<Rightarrow> process" where
  "process_exit code p = (log (ProcessExit code) p)\<lparr>exit_code := Some code\<rparr>"

text \<open>\<^verbatim>\<open>const numCPUs = __config.clusterNumber || 0\<close>: an undefined or zero value gives 0.\<close>

definition numCPUs :: "config \<Rightarrow> int" where
  "numCPUs cfg = (case clusterNumber cfg of None \<Rightarrow> 0 | Some n \<Rightarrow> if n = 0 then 0 else n)"

definition path_join :: "string \<Rightarrow> string \<Rightarrow> string" where
  "path_join a b = a @ ''/'' @ b"

definition use :: "layer \<Rightarrow> app \<Rightarrow> app" where
  "use l a = a\<lparr>stack := stack a @ [l]\<rparr>"

definition app_set :: "string \<Rightarrow> string \<Rightarrow> app \<Rightarrow> app" where
  "app_set k v a = a\<lparr>settings := settings a @ [(k, v)]\<rparr>"

definition mounted :: "((string \<Rightarrow> bool) \<times> string) list \<Rightarrow> layer list" where
  "mounted hs = map (\<lambda>(m, name). External m name) hs"

definition install :: "((string \<Rightarrow> bool) \<times> string) list \<Rightarrow> app \<Rightarrow> app" where
  "install hs a = a\<lparr>stack := stack a @ mounted hs\<rparr>"

definition any_path :: "string \<Rightarrow> bool" where
  "any_path s = True"

text \<open>Lines 38 to 122 of \<^verbatim>\<open>runExpressServer\<close>: the application and its stack, in order.\<close>

definition build_app :: "environment \<Rightarrow> app" where
  "build_app env =
     (let a = empty_app;
          a = use (External any_path ''helmet'') a;
          a = use (External any_path ''helmet.hsts'') a;
          a = use (External any_path ''helmet.frameguard'') a;
          a = app_set ''views'' (path_join (pwd env) ''views'') a;
          a = app_set ''view engine'' ''hbs'' a;
          a = use TimeoutFilter a;
          a = use (External any_path ''bodyParser.json'') a;
          a = use (External any_path ''bodyParser.urlencoded'') a;
          a = use JsonErrorHandler a;
          a = use (External any_path ''cors'') a;
          a = install (auth_layers env) a;
          a = install (route_layers env) a
      in use CatchAll a)"

text \<open>Lines 124 to 126: \<^verbatim>\<open>for (let i = 0; i < numCPUs; i++) cluster.fork()\<close>.\<close>

function fork_loop :: "int \<Rightarrow> int \<Rightarrow> process \<Rightarrow> process" where
  "fork_loop i n p = (if i < n then fork_loop (i + 1) n (log ClusterFork p) else p)"
  by pat_completeness auto
termination
  by (relation "measure (\<lambda>(i, n, p). nat (n - i))") auto

declare fork_loop.simps [simp del]

text \<open>Lines 128 to 130: create the server, listen on the port, set the timeout.\<close>

definition create_and_listen :: "config \<Rightarrow> environment \<Rightarrow> process \<Rightarrow> process" where
  "create_and_listen cfg env p =
     (let p = log HttpCreateServer p;
          p = log (ServerListen (port cfg)) p
      in p\<lparr>app := (app p)\<lparr>server :=
            Some \<lparr>listening = True, srv_timeout = Some (server_timeout env),
                  close_listeners = []\<rparr>\<rparr>\<rparr>)"

text \<open>Lines 167 to 170: every file of the schema directory ending in .js is required.\<close>

fun require_schemas :: "string \<Rightarrow> string list \<Rightarrow> process \<Rightarrow> process" where
  "require_schemas dir [] p = p"
| "require_schemas dir (f # fs) p =
     require_schemas dir fs (if suffix ''.js'' f then log (Require (path_join dir f)) p else p)"

definition runExpressServer :: "config \<Rightarrow> environment \<Rightarrow> process \<Rightarrow> process" where
  "runExpressServer cfg env p0 =
     (let p = log (ConsoleDebug ''info inside ~function=runExpressServer.'') p0;
          p = p\<lparr>app := build_app env\<rparr>;
          p = (if is_master env \<and> numCPUs cfg > 0 then fork_loop 0 (numCPUs cfg) p
               else create_and_listen cfg env p);
          apiPrefix = (if addBaseUrlPrefix cfg then ''/'' @ api_prefix cfg else []);
          p = log (ConsoleLogListening (port cfg)
                     (base_url cfg @ apiPrefix @ ''/api/healthCheck/getping'')) p;
          p = p\<lparr>signal_handlers := signal_handlers p @ [SIGINT]\<rparr>;
          p = p\<lparr>signal_handlers := signal_handlers p @ [SIGTERM]\<rparr>;
          p = p\<lparr>uncaught_handler := True\<rparr>
      in require_schemas (path_join (dirname env) ''mongooseSchema'') (schema_dir env) p)"

text \<open>
  \<^verbatim>\<open>startServer\<close> up to its \<^verbatim>\<open>await\<close>: the store's \<^verbatim>\<open>init()\<close> is called and the
  function is suspended until the promise settles.
\<close>

definition startServer :: "process \<Rightarrow> process" where
  "startServer p =
     (let p = log (ConsoleDebug ''inside ~function=startServer. STARTING http_api WORKER'') p;
          p = log DbInit p
      in p\<lparr>awaiting_init := True\<rparr>)"

text \<open>
  The \<^verbatim>\<open>.then\<close> and \<^verbatim>\<open>.catch\<close> of lines 26 to 32, run when the promise of
  \<^verbatim>\<open>init()\<close> settles. \<^verbatim>\<open>runExpressServer\<close> is taken to return normally: the
  environment has \<^verbatim>\<open>PWD\<close> set and the schema directory exists.
\<close>

definition init_settled :: "config \<Rightarrow> environment \<Rightarrow> init_outcome \<Rightarrow> process \<Rightarrow> process" where
  "init_settled cfg env r p =
     (case r of
        InitOk \<Rightarrow> runExpressServer cfg env (p\<lparr>awaiting_init := False\<rparr>)
      | InitErr e \<Rightarrow>
          process_exit 1
            (log (ConsoleLogError ''Error while server start :: '' (Some e))
               (p\<lparr>awaiting_init := False\<rparr>)))"

subsection \<open>Shutdown\<close>

definition err_server_not_running :: js_error where
  "err_server_not_running =
     \<lparr>is_syntax_error = False, status = None, has_body = False,
      message = ''ERR_SERVER_NOT_RUNNING''\<rparr>"

definition type_error_close :: js_error where
  "type_error_close =
     \<lparr>is_syntax_error = False, status = None, has_body = False,
      message = ''TypeError: Cannot read properties of undefined (reading close)''\<rparr>"

text \<open>
  \<^verbatim>\<open>server.close(cb)\<close> of the runtime: the first call stops the listener and registers
  \<open>cb\<close> for the \<^verbatim>\<open>'close'\<close> event; a call on a server that is no longer listening
  registers \<open>cb\<close> too, to be given the error \<^verbatim>\<open>ERR_SERVER_NOT_RUNNING\<close>.
\<close>

definition server_close :: "server \<Rightarrow> server" where
  "server_close s =
     (if listening s
      then s\<lparr>listening := False, close_listeners := close_listeners s @ [None]\<rparr>
      else s\<lparr>close_listeners := close_listeners s @ [Some err_server_not_running]\<rparr>)"

text \<open>
  \<^verbatim>\<open>stopGraceFully\<close> (line 141): \<^verbatim>\<open>vm.app.server.close(...)\<close>. Reading \<^verbatim>\<open>close\<close> of an
  undefined \<^verbatim>\<open>vm.app.server\<close> throws.
\<close>

definition stopGraceFully :: "process \<Rightarrow> js_error + process" where
  "stopGraceFully p =
     (case server (app p) of
        None \<Rightarrow> Inl type_error_close
      | Some s \<Rightarrow> Inr ((log ServerClose p)\<lparr>app := (app p)\<lparr>server := Some (server_close s)\<rparr>\<rparr>))"

text \<open>The handler of line 158, or the runtime's default when none is registered.\<close>

definition on_uncaught :: "js_error \<Rightarrow> process \<Rightarrow> process" where
  "on_uncaught e p =
     (if uncaught_handler p
      then log (ConsoleLogError
             ''error :: inside ~function=runExpressServer. ##### SERVER CRASH ##### '' (Some e)) p
      else p\<lparr>exit_code := Some 1\<rparr>)"

definition signal_name :: "signal \<Rightarrow> string" where
  "signal_name s = (case s of SIGINT \<Rightarrow> ''SIGINT received'' | SIGTERM \<Rightarrow> ''SIGTERM received'')"

definition default_signal_exit :: "signal \<Rightarrow> int" where
  "default_signal_exit s = (case s of SIGINT \<Rightarrow> 130 | SIGTERM \<Rightarrow> 143)"

text \<open>
  The handlers of lines 150 and 154. An exception thrown by \<^verbatim>\<open>stopGraceFully\<close> leaves the
  handler and reaches the process as an uncaught exception.
\<close>

definition on_signal :: "signal \<Rightarrow> process \<Rightarrow> process" where
  "on_signal s p =
     (if s \<in> set (signal_handlers p) then
        (let p1 = log (ConsoleLog (signal_name s)) p
         in case stopGraceFully p1 of Inl e \<Rightarrow> on_uncaught e p1 | Inr p2 \<Rightarrow> p2)
      else p\<lparr>exit_code := Some (default_signal_exit s)\<rparr>)"

text \<open>
  The callback of line 142 up to its \<^verbatim>\<open>await\<close>: it logs, calls the store's
  \<^verbatim>\<open>close()\<close> and is suspended.
\<close>

definition close_callback_begin :: "js_error option \<Rightarrow> process \<Rightarrow> process" where
  "close_callback_begin error p =
     (let p = log (ConsoleLogError ''inside ~function=runExpressServerserver is closed'' error) p;
          p = log DbClose p
      in p\<lparr>awaiting_db_close := awaiting_db_close p @ [error]\<rparr>)"

text \<open>
  The rest of the callback, once the promise of its own \<^verbatim>\<open>__db.close()\<close> call has
  settled: \<^verbatim>\<open>process.exit(error ? 1 : 0)\<close> when it resolved. When it rejected, the
  \<^verbatim>\<open>await\<close> throws inside the async callback and the two last statements do not run;
  nobody handles the callback's promise, and the runtime raises the unhandled rejection as
  an uncaught exception.
\<close>

definition close_callback_end :: "js_error option \<Rightarrow> close_outcome \<Rightarrow> process \<Rightarrow> process" where
  "close_callback_end error r p =
     (case r of
        CloseResolved \<Rightarrow>
          process_exit (if error \<noteq> None then 1 else 0) (log (ConsoleDebug ''server is closed'') p)
      | CloseRejected e \<Rightarrow> on_uncaught e p)"

fun run_close_listeners :: "js_error option list \<Rightarrow> process \<Rightarrow> process" where
  "run_close_listeners [] p = p"
| "run_close_listeners (e # es) p = run_close_listeners es (close_callback_begin e p)"

text \<open>The server emits \<^verbatim>\<open>'close'\<close>: every registered callback runs, once.\<close>

definition on_server_closed :: "process \<Rightarrow> process" where
  "on_server_closed p =
     (case server (app p) of
        None \<Rightarrow> p
      | Some s \<Rightarrow>
          run_close_listeners (close_listeners s)
            (p\<lparr>app := (app p)\<lparr>server := Some (s\<lparr>close_listeners := []\<rparr>)\<rparr>\<rparr>))"

text \<open>
  The store's promise of the \<open>i\<close>-th suspended callback settles. Each callback awaits
  the promise of its own call, so they may continue in any order.
\<close>

definition on_db_close_settled :: "nat \<Rightarrow> close_outcome \<Rightarrow> process \<Rightarrow> process" where
  "on_db_close_settled i r p =
     (if i < length (awaiting_db_close p)
      then close_callback_end (awaiting_db_close p ! i) r
             (p\<lparr>awaiting_db_close := take i (awaiting_db_close p) @ drop (Suc i) (awaiting_db_close p)\<rparr>)
      else p)"

subsection \<open>The health probe\<close>

definition POLL_INTERVAL :: nat where
  "POLL_INTERVAL = 10000"

definition pollingDuration :: nat where
  "pollingDuration = 5 * 60 * 1000"

text \<open>
  \<^verbatim>\<open>internalHealthCheck\<close> up to its \<^verbatim>\<open>await\<close>: one GET on the process's own port.
\<close>

definition internalHealthCheck :: "config \<Rightarrow> process \<Rightarrow> process" where
  "internalHealthCheck cfg p =
     (log (AxiosGet (port cfg)) p)\<lparr>probes_in_flight := Suc (probes_in_flight p)\<rparr>"

text \<open>
  The rest of it, and the \<^verbatim>\<open>.catch\<close> of line 198: the answer is logged, a failure is
  logged with \<^verbatim>\<open>console.error\<close>.
\<close>

definition probe_settled :: "probe_outcome \<Rightarrow> process \<Rightarrow> process" where
  "probe_settled r p =
     (if probes_in_flight p = 0 then p
      else (case r of
              ProbeOk \<Rightarrow> log (ConsoleLog ''Health check response:'')
            | ProbeFailed e \<Rightarrow> log (ConsoleError ''Health check failed:'' e))
           (p\<lparr>probes_in_flight := probes_in_flight p - 1\<rparr>))"

text \<open>The callback of \<^verbatim>\<open>setTimeout\<close> (line 204): \<^verbatim>\<open>clearInterval(interval)\<close> and a log line.\<close>

definition stop_polling :: "process \<Rightarrow> process" where
  "stop_polling p =
     log (ConsoleLog ''Stopped polling after 5 minutes.'')
       (p\<lparr>poll_interval := None, poll_timeout := None\<rparr>)"

definition interval_tick :: "config \<Rightarrow> nat \<Rightarrow> process \<Rightarrow> process" where
  "interval_tick cfg now p = (internalHealthCheck cfg p)\<lparr>poll_interval := Some (now + POLL_INTERVAL)\<rparr>"

definition is_due :: "nat option \<Rightarrow> nat \<Rightarrow> bool" where
  "is_due t now = (case t of None \<Rightarrow> False | Some e \<Rightarrow> e \<le> now)"

text \<open>
  One pass of the runtime over its timers at clock value \<open>now\<close>. \<open>poll_interval\<close> and
  \<open>poll_timeout\<close> hold the expiry of the interval and of the one-shot timer. Due timers
  run in the order of their expiry; \<open>tie\<close> says whether the interval goes first when
  both expire at the same instant. The interval is armed again one period after it ran, so
  it runs at most once in a pass; a cleared interval does not run.
\<close>

definition timer_phase :: "config \<Rightarrow> nat \<Rightarrow> bool \<Rightarrow> process \<Rightarrow> process" where
  "timer_phase cfg now tie p =
     (if is_due (poll_interval p) now \<and> is_due (poll_timeout p) now then
        (if the (poll_interval p) < the (poll_timeout p)
            \<or> (the (poll_interval p) = the (poll_timeout p) \<and> tie)
         then stop_polling (interval_tick cfg now p)
         else stop_polling p)
      else if is_due (poll_interval p) now then interval_tick cfg now p
      else if is_due (poll_timeout p) now then stop_polling p
      else p)"

subsection \<open>The event loop\<close>

text \<open>
  A request reaches the application only while the server of this process is listening.
\<close>

definition serve :: "request \<Rightarrow> process \<Rightarrow> process" where
  "serve req p =
     (case server (app p) of
        None \<Rightarrow> p
      | Some s \<Rightarrow>
          if listening s
          then p\<lparr>trace := trace p @ effects (dispatch req (stack (app p)) None init_ctx)\<rparr>
          else p)"

datatype event =
    Signal signal
  | ServerClosed
  | DbInitSettled init_outcome
  | DbCloseSettled nat close_outcome
  | UncaughtException js_error
  | Incoming request
  | TimerPhase nat bool
  | ProbeSettled probe_outcome

text \<open>One turn of the event loop. Nothing runs in a process that has exited.\<close>

definition step :: "config \<Rightarrow> environment \<Rightarrow> process \<Rightarrow> event \<Rightarrow> process" where
  "step cfg env p ev =
     (if exit_code p \<noteq> None then p
      else case ev of
             Signal s \<Rightarrow> on_signal s p
           | ServerClosed \<Rightarrow> on_server_closed p
           | DbInitSettled r \<Rightarrow> (if awaiting_init p then init_settled cfg env r p else p)
           | DbCloseSettled i r \<Rightarrow> on_db_close_settled i r p
           | UncaughtException e \<Rightarrow> on_uncaught e p
           | Incoming req \<Rightarrow> serve req p
           | TimerPhase now tie \<Rightarrow> timer_phase cfg now tie p
           | ProbeSettled r \<Rightarrow> probe_settled r p)"

definition run :: "config \<Rightarrow> environment \<Rightarrow> process \<Rightarrow> event list \<Rightarrow> process" where
  "run cfg env p evs = foldl (step cfg env) p evs"

text \<open>
  \<^verbatim>\<open>Worker.start\<close> at clock value \<open>now\<close>: \<^verbatim>\<open>startServer\<close> is called and not awaited,
  then the interval and the one-shot timer are armed.
\<close>

definition start :: "nat \<Rightarrow> process" where
  "start now =
     (let p = log (ConsoleDebug ''   >> Worker PID:'') new_worker;
          p = startServer p;
          p = p\<lparr>poll_interval := Some (now + POLL_INTERVAL)\<rparr>
      in p\<lparr>poll_timeout := Some (now + pollingDuration)\<rparr>)"

subsection \<open>Reading a trace\<close>

text \<open>
  Counting and selecting effects: the probe attempts, the exits, the calls that set up the
  process (store initialisation, forks, server creation and binding) and the calls of the
  shutdown sequence (\<^verbatim>\<open>server.close\<close>, store close, exit).
\<close>

definition count_effect :: "effect \<Rightarrow> effect list \<Rightarrow> nat" where
  "count_effect e es = length (filter (\<lambda>x. x = e) es)"

fun is_probe :: "effect \<Rightarrow> bool" where
  "is_probe (AxiosGet n) = True"
| "is_probe _ = False"

definition probe_attempts :: "process \<Rightarrow> nat" where
  "probe_attempts p = length (filter is_probe (trace p))"

fun is_exit :: "effect \<Rightarrow> bool" where
  "is_exit (ProcessExit n) = True"
| "is_exit _ = False"

fun is_startup :: "effect \<Rightarrow> bool" where
  "is_startup DbInit = True"
| "is_startup ClusterFork = True"
| "is_startup HttpCreateServer = True"
| "is_startup (ServerListen n) = True"
| "is_startup _ = False"

text \<open>The calls that decide the shape of the process tree, in the order they were made.\<close>

definition startup_effects :: "process \<Rightarrow> effect list" where
  "startup_effects p = filter is_startup (trace p)"

fun is_shutdown :: "effect \<Rightarrow> bool" where
  "is_shutdown ServerClose = True"
| "is_shutdown DbClose = True"
| "is_shutdown (ProcessExit n) = True"
| "is_shutdown _ = False"

fun is_init_event :: "event \<Rightarrow> bool" where
  "is_init_event (DbInitSettled r) = True"
| "is_init_event _ = False"

text \<open>The first eight layers of the stack, those registered before the collaborators'.\<close>

definition prefix_layers :: "layer list" where
  "prefix_layers =
     [External any_path ''helmet'', External any_path ''helmet.hsts'',
      External any_path ''helmet.frameguard'', TimeoutFilter,
      External any_path ''bodyParser.json'', External any_path ''bodyParser.urlencoded'',
      JsonErrorHandler, External any_path ''cors'']"

subsection \<open>Reading a request's progress\<close>





section \<open>Sample configurations and requests\<close>

definition store_down :: js_error where
  "store_down =
     \<lparr>is_syntax_error = False, status = None, has_body = False, message = ''store unreachable''\<rparr>"

definition single_config :: config where
  "single_config =
     \<lparr>clusterNumber = None, port = 8080, addBaseUrlPrefix = False, api_prefix = ''v1'',
      base_url = ''http://localhost:8080''\<rparr>"

definition pool_config :: config where
  "pool_config =
     \<lparr>clusterNumber = Some 2, port = 8080, addBaseUrlPrefix = True, api_prefix = ''v1'',
      base_url = ''http://localhost:8080''\<rparr>"

definition users_path :: "string \<Rightarrow> bool" where
  "users_path s \<longleftrightarrow> s = ''/api/users''"

definition sample_env :: environment where
  "sample_env =
     \<lparr>is_master = True, pwd = ''/srv'', dirname = ''/srv/app'',
      schema_dir = [''user.js'', ''README.md''],
      auth_layers = [(any_path, ''passport'')],
      route_layers = [(users_path, ''users'')],
      server_timeout = 30000\<rparr>"






definition malformed :: js_error where
  "malformed =
     \<lparr>is_syntax_error = True, status = Some 400, has_body = True, message = ''Unexpected token''\<rparr>"



definition slow_body :: "string \<Rightarrow> ext_result" where
  "slow_body name = (if name = ''bodyParser.json'' then ExtPending else ExtNext)"




definition stalled_request :: request where
  "stalled_request = \<lparr>path = ''/api/users'', timedout = False, behaviour = slow_body\<rparr>"

section \<open>Invariants\<close>

text \<open>
  The original process of a pool after \<^verbatim>\<open>runExpressServer\<close>: handlers registered, no
  server, nothing of the shutdown sequence done or pending.
\<close>

definition parent_state :: "process \<Rightarrow> bool" where
  "parent_state p \<longleftrightarrow>
     server (app p) = None \<and> awaiting_db_close p = [] \<and> uncaught_handler p
     \<and> SIGINT \<in> set (signal_handlers p) \<and> SIGTERM \<in> set (signal_handlers p)
     \<and> exit_code p = None \<and> \<not> awaiting_init p \<and> filter is_shutdown (trace p) = []"

text \<open>
  The probe loop started at clock value \<open>t0\<close>: the attempts made so far fit into the
  window, and while the interval is armed the one-shot timer is still pending and the
  interval's expiry is at least one period per attempt made, plus one, after \<open>t0\<close>.
\<close>

definition probe_inv :: "nat \<Rightarrow> process \<Rightarrow> bool" where
  "probe_inv t0 p \<longleftrightarrow>
     probe_attempts p * POLL_INTERVAL \<le> pollingDuration
     \<and> (\<forall>e. poll_interval p = Some e \<longrightarrow>
            poll_timeout p = Some (t0 + pollingDuration)
          \<and> t0 + (probe_attempts p + 1) * POLL_INTERVAL \<le> e)"

text \<open>
  Every suspended close callback has logged the argument it was called with.
\<close>

definition pending_logged :: "process \<Rightarrow> bool" where
  "pending_logged p \<longleftrightarrow>
     (\<forall>e \<in> set (awaiting_db_close p).
        ConsoleLogError ''inside ~function=runExpressServerserver is closed'' e \<in> set (trace p))"

text \<open>Two request contexts that differ at most in the number of timeout listeners.\<close>

definition same_writes :: "res_ctx \<Rightarrow> res_ctx \<Rightarrow> bool" where
  "same_writes c d \<longleftrightarrow> effects c = effects d \<and> pending c = pending d"

section \<open>Auxiliary facts\<close>

subsection \<open>Startup\<close>

lemma trace_log [simp]: "trace (log e p) = trace p @ [e]"
  by (simp add: log_def)

lemma log_fields [simp]:
  "app (log e p) = app p" "signal_handlers (log e p) = signal_handlers p"
  "uncaught_handler (log e p) = uncaught_handler p" "awaiting_init (log e p) = awaiting_init p"
  "awaiting_db_close (log e p) = awaiting_db_close p" "poll_interval (log e p) = poll_interval p"
  "poll_timeout (log e p) = poll_timeout p" "probes_in_flight (log e p) = probes_in_flight p"
  "exit_code (log e p) = exit_code p"
  by (simp_all add: log_def)

lemma fork_loop_eq:
  "fork_loop i n p = p\<lparr>trace := trace p @ replicate (nat (n - i)) ClusterFork\<rparr>"
proof (induction i n p rule: fork_loop.induct)
  case (1 i n p)
  show ?case
  proof (cases "i < n")
    case True
    then have "nat (n - i) = Suc (nat (n - (i + 1)))" by simp
    with True 1 show ?thesis
      by (subst fork_loop.simps) (simp add: replicate_append_same log_def)
  next
    case False
    then show ?thesis by (subst fork_loop.simps) simp
  qed
qed

lemma require_schemas_eq:
  "require_schemas dir fs p =
     p\<lparr>trace := trace p @ map (\<lambda>f. Require (path_join dir f)) (filter (suffix ''.js'') fs)\<rparr>"
  by (induction fs arbitrary: p) (simp_all add: log_def)

lemma build_app_eq:
  "build_app env =
     \<lparr>stack = prefix_layers @ mounted (auth_layers env) @ mounted (route_layers env) @ [CatchAll],
      settings = [(''views'', path_join (pwd env) ''views''), (''view engine'', ''hbs'')],
      server = None\<rparr>"
  by (simp add: build_app_def use_def app_set_def install_def empty_app_def prefix_layers_def)

lemma start_eq:
  "start now = \<lparr>app = empty_app, signal_handlers = [], uncaught_handler = False,
     trace = [ConsoleDebug ''   >> Worker PID:'',
              ConsoleDebug ''inside ~function=startServer. STARTING http_api WORKER'', DbInit],
     awaiting_init = True, awaiting_db_close = [], poll_interval = Some (now + POLL_INTERVAL),
     poll_timeout = Some (now + pollingDuration), probes_in_flight = 0, exit_code = None\<rparr>"
  by (simp add: start_def startServer_def new_worker_def log_def)

lemma runExpressServer_trace:
  "\<exists>xs ys. trace (runExpressServer cfg env p) =
       trace p @ xs @ (if is_master env \<and> 0 < numCPUs cfg
          then replicate (nat (numCPUs cfg)) ClusterFork
          else [HttpCreateServer, ServerListen (port cfg)]) @ ys
     \<and> (\<forall>e \<in> set (xs @ ys). \<not> is_startup e \<and> \<not> is_probe e \<and> \<not> is_shutdown e)"
proof -
  let ?xs = "[ConsoleDebug ''info inside ~function=runExpressServer.'']"
  let ?ys = "ConsoleLogListening (port cfg)
               (base_url cfg @ (if addBaseUrlPrefix cfg then ''/'' @ api_prefix cfg else [])
                 @ ''/api/healthCheck/getping'')
             # map (\<lambda>f. Require (path_join (path_join (dirname env) ''mongooseSchema'') f))
                 (filter (suffix ''.js'') (schema_dir env))"
  have "trace (runExpressServer cfg env p) =
          trace p @ ?xs @ (if is_master env \<and> 0 < numCPUs cfg
          then replicate (nat (numCPUs cfg)) ClusterFork
          else [HttpCreateServer, ServerListen (port cfg)]) @ ?ys"
    by (simp add: runExpressServer_def fork_loop_eq require_schemas_eq create_and_listen_def
        Let_def)
  moreover have "\<forall>e \<in> set (?xs @ ?ys). \<not> is_startup e \<and> \<not> is_probe e \<and> \<not> is_shutdown e"
    by auto
  ultimately show ?thesis by blast
qed

lemma runExpressServer_fields:
  "server (app (runExpressServer cfg env p)) =
     (if is_master env \<and> 0 < numCPUs cfg then None
      else Some \<lparr>listening = True, srv_timeout = Some (server_timeout env), close_listeners = []\<rparr>)"
  "stack (app (runExpressServer cfg env p)) =
     prefix_layers @ mounted (auth_layers env) @ mounted (route_layers env) @ [CatchAll]"
  "signal_handlers (runExpressServer cfg env p) = signal_handlers p @ [SIGINT, SIGTERM]"
  "uncaught_handler (runExpressServer cfg env p)"
  "awaiting_init (runExpressServer cfg env p) = awaiting_init p"
  "awaiting_db_close (runExpressServer cfg env p) = awaiting_db_close p"
  "poll_interval (runExpressServer cfg env p) = poll_interval p"
  "poll_timeout (runExpressServer cfg env p) = poll_timeout p"
  "probes_in_flight (runExpressServer cfg env p) = probes_in_flight p"
  "exit_code (runExpressServer cfg env p) = exit_code p"
  by (simp_all add: runExpressServer_def fork_loop_eq require_schemas_eq create_and_listen_def
      build_app_eq Let_def)

subsection \<open>Effects of a request stay within the request\<close>

lemma emit_effects [simp]: "effects (emit e c) = effects c @ [e]"
  by (simp add: emit_def)

lemma dispatch_quiet:
  "\<exists>xs. effects (dispatch req ls e c) = effects c @ xs
     \<and> (\<forall>x \<in> set xs. \<not> is_startup x \<and> \<not> is_probe x \<and> \<not> is_shutdown x)"
proof (induction req ls e c rule: dispatch.induct)
  case (2 req m name ls c)
  show ?case
  proof (cases "m (path req)")
    case False
    with 2 show ?thesis by simp
  next
    case True
    show ?thesis
    proof (cases "behaviour req name")
      case ExtNext
      with True 2(1) obtain xs where
        "effects (dispatch req ls None (emit (Invoke name) c)) = effects (emit (Invoke name) c) @ xs"
        "\<forall>x \<in> set xs. \<not> is_startup x \<and> \<not> is_probe x \<and> \<not> is_shutdown x" by blast
      then show ?thesis using True ExtNext
        by (intro exI [of _ "Invoke name # xs"]) simp
    next
      case (ExtError e')
      with True 2(2) obtain xs where
        "effects (dispatch req ls (Some e') (emit (Invoke name) c)) = effects (emit (Invoke name) c) @ xs"
        "\<forall>x \<in> set xs. \<not> is_startup x \<and> \<not> is_probe x \<and> \<not> is_shutdown x" by blast
      then show ?thesis using True ExtError
        by (intro exI [of _ "Invoke name # xs"]) simp
    next
      case (ExtRespond pl)
      then show ?thesis using True
        by (intro exI [of _ "[Invoke name, SendJson pl]"]) simp
    next
      case ExtPending
      then show ?thesis using True
        by (intro exI [of _ "[Invoke name]"]) simp
    qed
  qed
next
  case (4 req ls c)
  show ?case
  proof (cases "timedout req")
    case True
    then show ?thesis
      by (intro exI [of _ "[SendJson client_timedout_payload]"]) (simp add: Let_def)
  next
    case False
    with 4 show ?thesis by (simp add: Let_def)
  qed
next
  case (7 req ls e c)
  show ?case
  proof (cases "is_json_parse_error e")
    case True
    then show ?thesis
      by (intro exI [of _ "[ConsoleLogError ''Error while sending request (JSON invalid)'' (Some e),
                            SendJson invalid_request_payload]"]) simp
  next
    case False
    with 7 show ?thesis by simp
  qed
qed (simp_all)


subsection \<open>What each handler adds to the trace\<close>

lemma run_close_listeners_eq:
  "run_close_listeners es p =
     p\<lparr>trace := trace p @ concat (map (\<lambda>e. [ConsoleLogError
              ''inside ~function=runExpressServerserver is closed'' e, DbClose]) es),
       awaiting_db_close := awaiting_db_close p @ es\<rparr>"
  by (induction es arbitrary: p) (simp_all add: close_callback_begin_def log_def)

lemma on_signal_startup:
  "filter is_startup (trace (on_signal s p)) = filter is_startup (trace p)"
  "filter is_probe (trace (on_signal s p)) = filter is_probe (trace p)"
  by (auto simp: on_signal_def stopGraceFully_def on_uncaught_def Let_def split: option.splits)

lemma filter_concat_close [simp]:
  "filter is_startup (concat (map (\<lambda>e. [ConsoleLogError t e, DbClose]) es)) = []"
  "filter is_probe (concat (map (\<lambda>e. [ConsoleLogError t e, DbClose]) es)) = []"
  by (induction es) simp_all

lemma on_server_closed_startup:
  "filter is_startup (trace (on_server_closed p)) = filter is_startup (trace p)"
  "filter is_probe (trace (on_server_closed p)) = filter is_probe (trace p)"
  by (auto simp: on_server_closed_def run_close_listeners_eq split: option.splits)

lemma on_db_close_settled_startup:
  "filter is_startup (trace (on_db_close_settled i r p)) = filter is_startup (trace p)"
  "filter is_probe (trace (on_db_close_settled i r p)) = filter is_probe (trace p)"
  by (auto simp: on_db_close_settled_def close_callback_end_def process_exit_def on_uncaught_def
      split: close_outcome.splits)

lemma on_uncaught_startup:
  "filter is_startup (trace (on_uncaught e p)) = filter is_startup (trace p)"
  "filter is_probe (trace (on_uncaught e p)) = filter is_probe (trace p)"
  "filter is_shutdown (trace (on_uncaught e p)) = filter is_shutdown (trace p)"
  by (auto simp: on_uncaught_def)

lemma serve_startup:
  "filter is_startup (trace (serve req p)) = filter is_startup (trace p)"
  "filter is_probe (trace (serve req p)) = filter is_probe (trace p)"
  "filter is_shutdown (trace (serve req p)) = filter is_shutdown (trace p)"
proof -
  obtain xs where xs: "effects (dispatch req (stack (app p)) None init_ctx) = effects init_ctx @ xs"
    "\<forall>x \<in> set xs. \<not> is_startup x \<and> \<not> is_probe x \<and> \<not> is_shutdown x"
    using dispatch_quiet by blast
  then have "filter is_startup xs = []" "filter is_probe xs = []" "filter is_shutdown xs = []"
    by (simp_all add: filter_empty_conv)
  with xs(1) show "filter is_startup (trace (serve req p)) = filter is_startup (trace p)"
    "filter is_probe (trace (serve req p)) = filter is_probe (trace p)"
    "filter is_shutdown (trace (serve req p)) = filter is_shutdown (trace p)"
    by (auto simp: serve_def init_ctx_def split: option.splits)
qed

lemma probe_settled_startup:
  "filter is_startup (trace (probe_settled r p)) = filter is_startup (trace p)"
  "filter is_probe (trace (probe_settled r p)) = filter is_probe (trace p)"
  "filter is_shutdown (trace (probe_settled r p)) = filter is_shutdown (trace p)"
  by (auto simp: probe_settled_def split: probe_outcome.splits)

lemma timer_phase_startup:
  "filter is_startup (trace (timer_phase cfg now tie p)) = filter is_startup (trace p)"
  "filter is_shutdown (trace (timer_phase cfg now tie p)) = filter is_shutdown (trace p)"
  by (auto simp: timer_phase_def stop_polling_def interval_tick_def internalHealthCheck_def)

lemma init_settled_probe:
  "filter is_probe (trace (init_settled cfg env r p)) = filter is_probe (trace p)"
proof (cases r)
  case InitOk
  obtain xs ys where t: "trace (runExpressServer cfg env (p\<lparr>awaiting_init := False\<rparr>))
       = trace (p\<lparr>awaiting_init := False\<rparr>) @ xs @ (if is_master env \<and> 0 < numCPUs cfg
          then replicate (nat (numCPUs cfg)) ClusterFork
          else [HttpCreateServer, ServerListen (port cfg)]) @ ys"
    "\<forall>e \<in> set (xs @ ys). \<not> is_startup e \<and> \<not> is_probe e \<and> \<not> is_shutdown e"
    using runExpressServer_trace by blast
  then have "filter is_probe xs = []" "filter is_probe ys = []"
    by (simp_all add: filter_empty_conv)
  then show ?thesis using InitOk t(1) by (simp add: init_settled_def filter_empty_conv)
next
  case (InitErr e)
  then show ?thesis by (simp add: init_settled_def process_exit_def)
qed

lemma step_startup:
  assumes "awaiting_init p \<longrightarrow> \<not> is_init_event ev"
  shows "startup_effects (step cfg env p ev) = startup_effects p"
  using assms
  by (cases ev)
     (simp_all add: step_def startup_effects_def on_signal_startup on_server_closed_startup
        on_db_close_settled_startup on_uncaught_startup serve_startup probe_settled_startup
        timer_phase_startup)


subsection \<open>What each handler leaves untouched\<close>

lemma on_signal_fields:
  "uncaught_handler (on_signal s p) = uncaught_handler p"
  "signal_handlers (on_signal s p) = signal_handlers p"
  "awaiting_db_close (on_signal s p) = awaiting_db_close p"
  "s \<in> set (signal_handlers p) \<Longrightarrow> uncaught_handler p \<Longrightarrow> exit_code (on_signal s p) = exit_code p"
  "server (app p) \<noteq> None \<Longrightarrow> server (app (on_signal s p)) \<noteq> None"
  "stack (app (on_signal s p)) = stack (app p)"
  "awaiting_init (on_signal s p) = awaiting_init p"
  "poll_interval (on_signal s p) = poll_interval p"
  "poll_timeout (on_signal s p) = poll_timeout p"
  "server (app p) = None \<Longrightarrow> server (app (on_signal s p)) = None"
  by (auto simp: on_signal_def stopGraceFully_def on_uncaught_def Let_def split: option.splits)

lemma on_server_closed_fields:
  "uncaught_handler (on_server_closed p) = uncaught_handler p"
  "signal_handlers (on_server_closed p) = signal_handlers p"
  "exit_code (on_server_closed p) = exit_code p"
  "server (app p) = None \<Longrightarrow> awaiting_db_close (on_server_closed p) = awaiting_db_close p"
  "server (app p) \<noteq> None \<Longrightarrow> server (app (on_server_closed p)) \<noteq> None"
  "stack (app (on_server_closed p)) = stack (app p)"
  "awaiting_init (on_server_closed p) = awaiting_init p"
  "poll_interval (on_server_closed p) = poll_interval p"
  "poll_timeout (on_server_closed p) = poll_timeout p"
  "server (app p) = None \<Longrightarrow> server (app (on_server_closed p)) = None"
  by (auto simp: on_server_closed_def run_close_listeners_eq split: option.splits)

lemma on_db_close_settled_fields:
  "uncaught_handler (on_db_close_settled i r p) = uncaught_handler p"
  "signal_handlers (on_db_close_settled i r p) = signal_handlers p"
  "awaiting_db_close p = [] \<Longrightarrow> on_db_close_settled i r p = p"
  "stack (app (on_db_close_settled i r p)) = stack (app p)"
  "awaiting_init (on_db_close_settled i r p) = awaiting_init p"
  "poll_interval (on_db_close_settled i r p) = poll_interval p"
  "poll_timeout (on_db_close_settled i r p) = poll_timeout p"
  "server (app (on_db_close_settled i r p)) = server (app p)"
  by (auto simp: on_db_close_settled_def close_callback_end_def process_exit_def on_uncaught_def
      split: close_outcome.splits)

lemma on_uncaught_fields:
  "signal_handlers (on_uncaught e p) = signal_handlers p"
  "awaiting_db_close (on_uncaught e p) = awaiting_db_close p"
  "uncaught_handler p \<Longrightarrow> uncaught_handler (on_uncaught e p)"
  "uncaught_handler p \<Longrightarrow> exit_code (on_uncaught e p) = exit_code p"
  "stack (app (on_uncaught e p)) = stack (app p)"
  "awaiting_init (on_uncaught e p) = awaiting_init p"
  "poll_interval (on_uncaught e p) = poll_interval p"
  "poll_timeout (on_uncaught e p) = poll_timeout p"
  "server (app (on_uncaught e p)) = server (app p)"
  by (auto simp: on_uncaught_def)

lemma serve_fields:
  "uncaught_handler (serve req p) = uncaught_handler p"
  "signal_handlers (serve req p) = signal_handlers p"
  "awaiting_db_close (serve req p) = awaiting_db_close p"
  "exit_code (serve req p) = exit_code p"
  "server (app p) = None \<Longrightarrow> serve req p = p"
  "stack (app (serve req p)) = stack (app p)"
  "awaiting_init (serve req p) = awaiting_init p"
  "poll_interval (serve req p) = poll_interval p"
  "poll_timeout (serve req p) = poll_timeout p"
  "server (app (serve req p)) = server (app p)"
  by (auto simp: serve_def split: option.splits)

lemma probe_settled_fields:
  "uncaught_handler (probe_settled r p) = uncaught_handler p"
  "signal_handlers (probe_settled r p) = signal_handlers p"
  "awaiting_db_close (probe_settled r p) = awaiting_db_close p"
  "exit_code (probe_settled r p) = exit_code p"
  "stack (app (probe_settled r p)) = stack (app p)"
  "awaiting_init (probe_settled r p) = awaiting_init p"
  "poll_interval (probe_settled r p) = poll_interval p"
  "poll_timeout (probe_settled r p) = poll_timeout p"
  "server (app (probe_settled r p)) = server (app p)"
  by (auto simp: probe_settled_def split: probe_outcome.splits)

lemma timer_phase_fields:
  "uncaught_handler (timer_phase cfg now tie p) = uncaught_handler p"
  "signal_handlers (timer_phase cfg now tie p) = signal_handlers p"
  "awaiting_db_close (timer_phase cfg now tie p) = awaiting_db_close p"
  "exit_code (timer_phase cfg now tie p) = exit_code p"
  "stack (app (timer_phase cfg now tie p)) = stack (app p)"
  "awaiting_init (timer_phase cfg now tie p) = awaiting_init p"
  "server (app (timer_phase cfg now tie p)) = server (app p)"
  by (auto simp: timer_phase_def stop_polling_def interval_tick_def internalHealthCheck_def)

lemma step_awaiting_init:
  assumes "awaiting_init p \<longrightarrow> \<not> is_init_event ev"
  shows "awaiting_init (step cfg env p ev) = awaiting_init p"
  using assms
  by (cases ev)
     (simp_all add: step_def on_signal_fields on_server_closed_fields on_db_close_settled_fields
        on_uncaught_fields serve_fields probe_settled_fields timer_phase_fields)

lemma step_server_none:
  assumes "\<not> awaiting_init p" and "server (app p) = None"
  shows "server (app (step cfg env p ev)) = None"
  using assms
  by (cases ev)
     (simp_all add: step_def on_signal_fields on_server_closed_fields on_db_close_settled_fields
        on_uncaught_fields serve_fields probe_settled_fields timer_phase_fields)

subsection \<open>Runs\<close>

lemma run_Nil: "run cfg env p [] = p"
  by (simp add: run_def)

lemma run_Cons: "run cfg env p (ev # evs) = run cfg env (step cfg env p ev) evs"
  by (simp add: run_def)

lemma run_append: "run cfg env p (xs @ ys) = run cfg env (run cfg env p xs) ys"
  by (simp add: run_def)

lemma run_exited: "exit_code p \<noteq> None \<Longrightarrow> run cfg env p evs = p"
  by (induction evs) (simp_all add: step_def run_Nil run_Cons)

lemma run_settled:
  assumes "\<not> awaiting_init p"
  shows "startup_effects (run cfg env p evs) = startup_effects p
       \<and> (server (app p) = None \<longrightarrow> server (app (run cfg env p evs)) = None)"
  using assms
proof (induction evs arbitrary: p)
  case Nil
  then show ?case by (simp add: run_Nil)
next
  case (Cons ev evs)
  have a: "\<not> awaiting_init (step cfg env p ev)"
    using Cons.prems step_awaiting_init [of p ev cfg env] by simp
  have s: "startup_effects (step cfg env p ev) = startup_effects p"
    using Cons.prems by (simp add: step_startup)
  show ?case
    using Cons.IH [OF a] s step_server_none [OF Cons.prems, of cfg env ev] by (simp add: run_Cons)
qed

lemma run_before_init:
  assumes "\<forall>ev \<in> set pre. \<not> is_init_event ev"
  shows "startup_effects (run cfg env p pre) = startup_effects p
       \<and> awaiting_init (run cfg env p pre) = awaiting_init p"
  using assms
proof (induction pre arbitrary: p)
  case Nil
  then show ?case by (simp add: run_Nil)
next
  case (Cons ev pre)
  then show ?case by (simp add: step_startup step_awaiting_init run_Cons)
qed

lemma init_ok_startup:
  "startup_effects (runExpressServer cfg env p) =
     startup_effects p @ (if is_master env \<and> 0 < numCPUs cfg
                          then replicate (nat (numCPUs cfg)) ClusterFork
                          else [HttpCreateServer, ServerListen (port cfg)])"
proof -
  obtain xs ys where t: "trace (runExpressServer cfg env p) =
       trace p @ xs @ (if is_master env \<and> 0 < numCPUs cfg
          then replicate (nat (numCPUs cfg)) ClusterFork
          else [HttpCreateServer, ServerListen (port cfg)]) @ ys"
    "\<forall>e \<in> set (xs @ ys). \<not> is_startup e \<and> \<not> is_probe e \<and> \<not> is_shutdown e"
    using runExpressServer_trace by blast
  then have "filter is_startup xs = []" "filter is_startup ys = []"
    by (simp_all add: filter_empty_conv)
  then show ?thesis using t(1) by (simp add: startup_effects_def)
qed



subsection \<open>The fault handler is registered wherever a server exists\<close>

lemma init_settled_handlers:
  "server (app p) \<noteq> None \<longrightarrow> uncaught_handler p \<Longrightarrow>
   server (app (init_settled cfg env r p)) \<noteq> None \<longrightarrow> uncaught_handler (init_settled cfg env r p)"
proof (cases r)
  case InitOk
  then show ?thesis by (simp add: init_settled_def runExpressServer_fields)
next
  case (InitErr e)
  assume "server (app p) \<noteq> None \<longrightarrow> uncaught_handler p"
  with InitErr show ?thesis by (simp add: init_settled_def process_exit_def)
qed

lemma step_keeps_handler:
  assumes "server (app p) \<noteq> None \<longrightarrow> uncaught_handler p"
  shows "server (app (step cfg env p ev)) \<noteq> None \<longrightarrow> uncaught_handler (step cfg env p ev)"
proof (cases "exit_code p \<noteq> None")
  case True
  then show ?thesis using assms by (simp add: step_def)
next
  case False
  show ?thesis
  proof (cases ev)
    case (Signal s)
    have "server (app p) = None \<Longrightarrow> server (app (on_signal s p)) = None"
      by (simp add: on_signal_fields)
    with Signal show ?thesis using assms False
      by (cases "server (app p) = None") (simp_all add: step_def on_signal_fields)
  next
    case ServerClosed
    have "server (app p) = None \<Longrightarrow> server (app (on_server_closed p)) = None"
      by (simp add: on_server_closed_fields)
    with ServerClosed show ?thesis using assms False
      by (cases "server (app p) = None") (simp_all add: step_def on_server_closed_fields)
  next
    case (DbInitSettled r)
    then show ?thesis using False init_settled_handlers [OF assms, of cfg env r] assms
      by (simp add: step_def)
  next
    case (DbCloseSettled i r)
    then show ?thesis using assms False by (simp add: step_def on_db_close_settled_fields)
  next
    case (UncaughtException e)
    then show ?thesis using assms False
      by (cases "server (app p) = None") (simp_all add: step_def on_uncaught_fields)
  next
    case (Incoming req)
    then show ?thesis using assms False by (simp add: step_def serve_fields)
  next
    case (TimerPhase now tie)
    then show ?thesis using assms False by (simp add: step_def timer_phase_fields)
  next
    case (ProbeSettled r)
    then show ?thesis using assms False by (simp add: step_def probe_settled_fields)
  qed
qed

lemma run_keeps_handler:
  assumes "server (app p) \<noteq> None \<longrightarrow> uncaught_handler p"
  shows "server (app (run cfg env p evs)) \<noteq> None \<longrightarrow> uncaught_handler (run cfg env p evs)"
  using assms
proof (induction evs arbitrary: p)
  case Nil
  then show ?case by (simp add: run_Nil)
next
  case (Cons ev evs)
  show ?case
    unfolding run_Cons by (rule Cons.IH) (rule step_keeps_handler [OF Cons.prems])
qed

lemma faults_only_log:
  assumes "uncaught_handler p" and "exit_code p = None"
  shows "run cfg env p (map UncaughtException es) =
           p\<lparr>trace := trace p @ map (\<lambda>e. ConsoleLogError
             ''error :: inside ~function=runExpressServer. ##### SERVER CRASH ##### '' (Some e)) es\<rparr>"
  using assms
proof (induction es arbitrary: p)
  case Nil
  then show ?case by (simp add: run_Nil)
next
  case (Cons e es)
  let ?q = "log (ConsoleLogError
     ''error :: inside ~function=runExpressServer. ##### SERVER CRASH ##### '' (Some e)) p"
  have s: "step cfg env p (UncaughtException e) = ?q"
    using Cons.prems by (simp add: step_def on_uncaught_def)
  have "uncaught_handler ?q" "exit_code ?q = None" using Cons.prems by simp_all
  from Cons.IH [OF this] show ?case
    by (simp add: run_Cons s)
qed



subsection \<open>The original process of a pool\<close>

lemma signal_without_server:
  assumes "server (app p) = None" and "s \<in> set (signal_handlers p)" and "uncaught_handler p"
  shows "on_signal s p =
           log (ConsoleLogError
                  ''error :: inside ~function=runExpressServer. ##### SERVER CRASH ##### ''
                  (Some type_error_close))
             (log (ConsoleLog (signal_name s)) p)"
  using assms by (simp add: on_signal_def stopGraceFully_def on_uncaught_def Let_def)

lemma parent_state_step:
  assumes "parent_state p"
  shows "parent_state (step cfg env p ev)"
proof (cases ev)
  case (Signal s)
  have "s \<in> set (signal_handlers p)" using assms by (cases s) (simp_all add: parent_state_def)
  then have "on_signal s p = log (ConsoleLogError
                  ''error :: inside ~function=runExpressServer. ##### SERVER CRASH ##### ''
                  (Some type_error_close)) (log (ConsoleLog (signal_name s)) p)"
    using assms by (simp add: signal_without_server parent_state_def)
  with Signal assms show ?thesis by (simp add: step_def parent_state_def)
next
  case ServerClosed
  with assms show ?thesis by (simp add: step_def parent_state_def on_server_closed_def)
next
  case (DbInitSettled r)
  with assms show ?thesis by (simp add: step_def parent_state_def)
next
  case (DbCloseSettled i r)
  with assms show ?thesis by (simp add: step_def parent_state_def on_db_close_settled_def)
next
  case (UncaughtException e)
  with assms show ?thesis by (simp add: step_def parent_state_def on_uncaught_def)
next
  case (Incoming req)
  with assms show ?thesis by (simp add: step_def parent_state_def serve_def)
next
  case (TimerPhase now tie)
  with assms show ?thesis
    by (simp add: step_def parent_state_def timer_phase_fields timer_phase_startup)
next
  case (ProbeSettled r)
  with assms show ?thesis
    by (simp add: step_def parent_state_def probe_settled_fields probe_settled_startup)
qed

lemma parent_state_run: "parent_state p \<Longrightarrow> parent_state (run cfg env p evs)"
  by (induction evs arbitrary: p) (simp_all add: run_Nil run_Cons parent_state_step)

lemma parent_state_after_init:
  assumes "is_master env" and "0 < numCPUs cfg"
  shows "parent_state (step cfg env (start now) (DbInitSettled InitOk))"
proof -
  let ?p = "runExpressServer cfg env ((start now)\<lparr>awaiting_init := False\<rparr>)"
  have s: "step cfg env (start now) (DbInitSettled InitOk) = ?p"
    by (simp add: step_def start_eq init_settled_def)
  obtain xs ys where t: "trace ?p =
       trace ((start now)\<lparr>awaiting_init := False\<rparr>) @ xs @ (if is_master env \<and> 0 < numCPUs cfg
          then replicate (nat (numCPUs cfg)) ClusterFork
          else [HttpCreateServer, ServerListen (port cfg)]) @ ys"
    "\<forall>e \<in> set (xs @ ys). \<not> is_startup e \<and> \<not> is_probe e \<and> \<not> is_shutdown e"
    using runExpressServer_trace by blast
  then have "filter is_shutdown xs = []" "filter is_shutdown ys = []"
    by (simp_all add: filter_empty_conv)
  then have "filter is_shutdown (trace ?p) = []"
    using t(1) assms by (simp add: start_eq filter_empty_conv)
  then show ?thesis
    unfolding s using assms by (simp add: parent_state_def runExpressServer_fields start_eq)
qed



subsection \<open>Signals in a process with a server\<close>

lemma signal_with_server:
  assumes "server (app p) = Some s" and "sg \<in> set (signal_handlers p)"
  shows "on_signal sg p =
           p\<lparr>trace := trace p @ [ConsoleLog (signal_name sg), ServerClose],
             app := (app p)\<lparr>server := Some (server_close s)\<rparr>\<rparr>"
  using assms by (simp add: on_signal_def stopGraceFully_def Let_def log_def)

lemma signals_run:
  assumes "server (app p) = Some s" and "set sigs \<subseteq> set (signal_handlers p)"
    and "exit_code p = None"
  shows "run cfg env p (map Signal sigs) =
           p\<lparr>trace := trace p @ concat (map (\<lambda>sg. [ConsoleLog (signal_name sg), ServerClose]) sigs),
             app := (app p)\<lparr>server := Some ((server_close ^^ length sigs) s)\<rparr>\<rparr>"
  using assms
proof (induction sigs arbitrary: p s)
  case Nil
  then show ?case by (simp add: run_Nil)
next
  case (Cons sg sigs)
  let ?q = "p\<lparr>trace := trace p @ [ConsoleLog (signal_name sg), ServerClose],
             app := (app p)\<lparr>server := Some (server_close s)\<rparr>\<rparr>"
  have s: "step cfg env p (Signal sg) = ?q"
    using Cons.prems by (simp add: step_def signal_with_server)
  have "server (app ?q) = Some (server_close s)" "set sigs \<subseteq> set (signal_handlers ?q)"
    "exit_code ?q = None"
    using Cons.prems by simp_all
  from Cons.IH [OF this] show ?case
    by (simp add: run_Cons s funpow_swap1)
qed

lemma close_listeners_funpow:
  "length (close_listeners ((server_close ^^ n) s)) = length (close_listeners s) + n"
  by (induction n) (simp_all add: server_close_def)

lemma count_effect_append: "count_effect e (xs @ ys) = count_effect e xs + count_effect e ys"
  by (simp add: count_effect_def)

lemma count_shutdown_free:
  assumes "filter is_shutdown xs = []"
  shows "count_effect ServerClose xs = 0" and "count_effect DbClose xs = 0"
proof -
  have "\<forall>x \<in> set xs. \<not> is_shutdown x" using assms by (simp add: filter_empty_conv)
  then have "\<forall>x \<in> set xs. x \<noteq> ServerClose \<and> x \<noteq> DbClose" by auto
  then show "count_effect ServerClose xs = 0" and "count_effect DbClose xs = 0"
    by (simp_all add: count_effect_def filter_empty_conv)
qed

lemma count_signal_lines:
  "count_effect ServerClose (concat (map (\<lambda>sg. [ConsoleLog (signal_name sg), ServerClose]) sigs))
     = length sigs"
  "count_effect DbClose (concat (map (\<lambda>sg. [ConsoleLog (signal_name sg), ServerClose]) sigs)) = 0"
  by (induction sigs) (simp_all add: count_effect_def)

lemma count_close_lines:
  "count_effect DbClose (concat (map (\<lambda>e. [ConsoleLogError t e, DbClose]) es)) = length es"
  "count_effect ServerClose (concat (map (\<lambda>e. [ConsoleLogError t e, DbClose]) es)) = 0"
  by (induction es) (simp_all add: count_effect_def)

text \<open>A worker after \<open>runExpressServer\<close>.\<close>

lemma worker_after_init:
  assumes "\<not> (is_master env \<and> 0 < numCPUs cfg)"
  shows "server (app (run cfg env (start now) [DbInitSettled InitOk]))
           = Some \<lparr>listening = True, srv_timeout = Some (server_timeout env), close_listeners = []\<rparr>"
    and "signal_handlers (run cfg env (start now) [DbInitSettled InitOk]) = [SIGINT, SIGTERM]"
    and "exit_code (run cfg env (start now) [DbInitSettled InitOk]) = None"
    and "awaiting_db_close (run cfg env (start now) [DbInitSettled InitOk]) = []"
    and "filter is_shutdown (trace (run cfg env (start now) [DbInitSettled InitOk])) = []"
proof -
  let ?p = "runExpressServer cfg env ((start now)\<lparr>awaiting_init := False\<rparr>)"
  have r: "run cfg env (start now) [DbInitSettled InitOk] = ?p"
    by (simp add: run_Cons run_Nil step_def start_eq init_settled_def)
  obtain xs ys where t: "trace ?p =
       trace ((start now)\<lparr>awaiting_init := False\<rparr>) @ xs @ (if is_master env \<and> 0 < numCPUs cfg
          then replicate (nat (numCPUs cfg)) ClusterFork
          else [HttpCreateServer, ServerListen (port cfg)]) @ ys"
    "\<forall>e \<in> set (xs @ ys). \<not> is_startup e \<and> \<not> is_probe e \<and> \<not> is_shutdown e"
    using runExpressServer_trace by blast
  then have "filter is_shutdown xs = []" "filter is_shutdown ys = []"
    by (simp_all add: filter_empty_conv)
  then show "filter is_shutdown (trace (run cfg env (start now) [DbInitSettled InitOk])) = []"
    unfolding r using t(1) assms by (simp add: start_eq)
  show "server (app (run cfg env (start now) [DbInitSettled InitOk]))
           = Some \<lparr>listening = True, srv_timeout = Some (server_timeout env), close_listeners = []\<rparr>"
    and "signal_handlers (run cfg env (start now) [DbInitSettled InitOk]) = [SIGINT, SIGTERM]"
    and "exit_code (run cfg env (start now) [DbInitSettled InitOk]) = None"
    and "awaiting_db_close (run cfg env (start now) [DbInitSettled InitOk]) = []"
    unfolding r using assms by (simp_all add: runExpressServer_fields start_eq)
qed

lemma server_closed_after_signals:
  assumes "server (app p) = Some s" and "set sigs \<subseteq> set (signal_handlers p)"
    and "exit_code p = None"
  shows "trace (run cfg env p (map Signal sigs @ [ServerClosed])) =
           trace p @ concat (map (\<lambda>sg. [ConsoleLog (signal_name sg), ServerClose]) sigs)
             @ concat (map (\<lambda>e. [ConsoleLogError
                  ''inside ~function=runExpressServerserver is closed'' e, DbClose])
                 (close_listeners ((server_close ^^ length sigs) s)))"
  using assms
  by (simp add: run_append signals_run run_Cons run_Nil step_def on_server_closed_def
      run_close_listeners_eq)

lemma shutdown_per_signal:
  assumes "\<not> (is_master env \<and> 0 < numCPUs cfg)"
  shows "trace (run cfg env (start now) (DbInitSettled InitOk # map Signal sigs))
           = trace (run cfg env (start now) [DbInitSettled InitOk])
             @ concat (map (\<lambda>sg. [ConsoleLog (signal_name sg), ServerClose]) sigs)
       \<and> count_effect ServerClose
           (trace (run cfg env (start now) (DbInitSettled InitOk # map Signal sigs @ [ServerClosed])))
           = length sigs
       \<and> count_effect DbClose
           (trace (run cfg env (start now) (DbInitSettled InitOk # map Signal sigs @ [ServerClosed])))
           = length sigs"
proof -
  let ?p = "run cfg env (start now) [DbInitSettled InitOk]"
  note w = worker_after_init [OF assms, where now=now]
  have sub: "set sigs \<subseteq> set (signal_handlers ?p)"
  proof
    fix sg assume "sg \<in> set sigs"
    show "sg \<in> set (signal_handlers ?p)" by (cases sg) (simp_all add: w(2))
  qed
  have e1: "run cfg env (start now) (DbInitSettled InitOk # map Signal sigs)
              = run cfg env ?p (map Signal sigs)"
    by (simp add: run_Cons run_Nil)
  have e2: "run cfg env (start now) (DbInitSettled InitOk # map Signal sigs @ [ServerClosed])
              = run cfg env ?p (map Signal sigs @ [ServerClosed])"
    by (simp add: run_Cons run_Nil)
  have c: "count_effect ServerClose (trace ?p) = 0" "count_effect DbClose (trace ?p) = 0"
    using count_shutdown_free [OF w(5)] by simp_all
  have t1: "trace (run cfg env ?p (map Signal sigs))
           = trace ?p @ concat (map (\<lambda>sg. [ConsoleLog (signal_name sg), ServerClose]) sigs)"
    by (simp add: signals_run [OF w(1) sub w(3)])
  note t2 = server_closed_after_signals [OF w(1) sub w(3), where cfg=cfg and env=env]
  show ?thesis
    unfolding e1 e2 t2 using t1 c
    by (simp add: count_effect_append count_signal_lines count_close_lines close_listeners_funpow)
qed


lemma shutdown_run:
  assumes "server (app p) = Some s" and "close_listeners s = []" and "awaiting_db_close p = []"
    and "sg \<in> set (signal_handlers p)" and "exit_code p = None"
  shows "run cfg env p [Signal sg, ServerClosed] =
           p\<lparr>trace := trace p @ [ConsoleLog (signal_name sg), ServerClose,
                 ConsoleLogError ''inside ~function=runExpressServerserver is closed''
                   (if listening s then None else Some err_server_not_running),
                 DbClose],
             app := (app p)\<lparr>server := Some (s\<lparr>listening := False\<rparr>)\<rparr>,
             awaiting_db_close := [if listening s then None else Some err_server_not_running]\<rparr>"
  using assms
  by (simp add: run_Cons run_Nil step_def signal_with_server on_server_closed_def
      run_close_listeners_eq server_close_def)



subsection \<open>The timers\<close>

lemma init_settled_timers:
  "poll_interval (init_settled cfg env r p) = poll_interval p"
  "poll_timeout (init_settled cfg env r p) = poll_timeout p"
  by (cases r; simp add: init_settled_def runExpressServer_fields process_exit_def)+

lemma step_probe_attempts:
  assumes "\<And>now tie. ev \<noteq> TimerPhase now tie"
  shows "probe_attempts (step cfg env p ev) = probe_attempts p"
    and "poll_interval (step cfg env p ev) = poll_interval p"
    and "poll_timeout (step cfg env p ev) = poll_timeout p"
  using assms
  by (cases ev;
      simp add: step_def probe_attempts_def on_signal_startup on_server_closed_startup
        on_db_close_settled_startup on_uncaught_startup serve_startup probe_settled_startup
        init_settled_probe on_signal_fields on_server_closed_fields on_db_close_settled_fields
        on_uncaught_fields serve_fields probe_settled_fields init_settled_timers)+

lemma timer_phase_inv:
  assumes "probe_inv t0 p"
  shows "probe_inv t0 (timer_phase cfg now tie p)"
proof (cases "poll_interval p")
  case None
  then show ?thesis
    using assms
    by (simp add: timer_phase_def is_due_def probe_inv_def stop_polling_def probe_attempts_def)
next
  case (Some e)
  with assms have t: "poll_timeout p = Some (t0 + pollingDuration)"
    and e: "t0 + (probe_attempts p + 1) * POLL_INTERVAL \<le> e"
    and k: "probe_attempts p * POLL_INTERVAL \<le> pollingDuration"
    by (simp_all add: probe_inv_def)
  have tick: "probe_attempts (interval_tick cfg now p) = probe_attempts p + 1"
    by (simp add: interval_tick_def internalHealthCheck_def probe_attempts_def)
  show ?thesis
  proof (cases "e \<le> now")
    case False
    then show ?thesis
      using assms Some t
      by (simp add: timer_phase_def is_due_def probe_inv_def stop_polling_def probe_attempts_def)
  next
    case due: True
    show ?thesis
    proof (cases "t0 + pollingDuration \<le> now")
      case True
      show ?thesis
      proof (cases "e < t0 + pollingDuration \<or> (e = t0 + pollingDuration \<and> tie)")
        case first: True
        then have "e \<le> t0 + pollingDuration" by auto
        with e have "(probe_attempts p + 1) * POLL_INTERVAL \<le> pollingDuration" by simp
        then show ?thesis
          using Some t due True first tick
          by (simp add: timer_phase_def is_due_def probe_inv_def stop_polling_def
              probe_attempts_def interval_tick_def internalHealthCheck_def)
      next
        case False
        then show ?thesis
          using Some t due True k
          by (auto simp: timer_phase_def is_due_def probe_inv_def stop_polling_def
              probe_attempts_def)
      qed
    next
      case False
      with e due have "(probe_attempts p + 1) * POLL_INTERVAL \<le> pollingDuration" by simp
      moreover have "t0 + (probe_attempts p + 1 + 1) * POLL_INTERVAL \<le> now + POLL_INTERVAL"
        using e due by simp
      ultimately show ?thesis
        using Some t due False
        by (simp add: timer_phase_def is_due_def probe_inv_def
            probe_attempts_def interval_tick_def internalHealthCheck_def)
    qed
  qed
qed

lemma step_probe_inv:
  assumes "probe_inv t0 p"
  shows "probe_inv t0 (step cfg env p ev)"
proof (cases "\<exists>now tie. ev = TimerPhase now tie")
  case True
  then obtain now tie where "ev = TimerPhase now tie" by blast
  then show ?thesis using assms by (simp add: step_def timer_phase_inv)
next
  case False
  then have "\<And>now tie. ev \<noteq> TimerPhase now tie" by blast
  from step_probe_attempts [OF this, of cfg env p] show ?thesis
    using assms by (simp add: probe_inv_def)
qed

lemma run_probe_inv: "probe_inv t0 p \<Longrightarrow> probe_inv t0 (run cfg env p evs)"
  by (induction evs arbitrary: p) (simp_all add: run_Nil run_Cons step_probe_inv)

lemma start_probe_inv: "probe_inv now (start now)"
  by (simp add: probe_inv_def start_eq probe_attempts_def POLL_INTERVAL_def)

text \<open>Once both timers are gone no event makes a probe.\<close>

lemma step_after_window:
  assumes "poll_interval p = None" and "poll_timeout p = None"
  shows "poll_interval (step cfg env p ev) = None \<and> poll_timeout (step cfg env p ev) = None
       \<and> probe_attempts (step cfg env p ev) = probe_attempts p"
proof (cases "\<exists>now tie. ev = TimerPhase now tie")
  case True
  then obtain now tie where "ev = TimerPhase now tie" by blast
  then show ?thesis using assms by (simp add: step_def timer_phase_def is_due_def)
next
  case False
  then have "\<And>now tie. ev \<noteq> TimerPhase now tie" by blast
  from step_probe_attempts [OF this, of cfg env p] show ?thesis
    using assms by simp
qed

lemma run_after_window:
  assumes "poll_interval p = None" and "poll_timeout p = None"
  shows "probe_attempts (run cfg env p evs) = probe_attempts p"
  using assms
proof (induction evs arbitrary: p)
  case Nil
  then show ?case by (simp add: run_Nil)
next
  case (Cons ev evs)
  from step_after_window [OF Cons.prems, of cfg env ev] Cons.IH [of "step cfg env p ev"]
  show ?case by (simp add: run_Cons)
qed



subsection \<open>The stack of app.js\<close>


lemma emit_fields [simp]:
  "timeout_listeners (emit e c) = timeout_listeners c" "pending (emit e c) = pending c"
  by (simp_all add: emit_def)


text \<open>The request up to and including the timeout filter.\<close>

lemma dispatch_through_filter:
  assumes "behaviour req ''helmet'' = ExtNext" and "behaviour req ''helmet.hsts'' = ExtNext"
    and "behaviour req ''helmet.frameguard'' = ExtNext" and "\<not> timedout req"
  shows "dispatch req (stack (build_app env)) None init_ctx =
     (dispatch req
        (External any_path ''bodyParser.json'' # External any_path ''bodyParser.urlencoded''
          # JsonErrorHandler # External any_path ''cors''
          # mounted (auth_layers env) @ mounted (route_layers env) @ [CatchAll])
        None
        \<lparr>effects = [Invoke ''helmet'', Invoke ''helmet.hsts'', Invoke ''helmet.frameguard''],
          timeout_listeners = 0, pending = None\<rparr>)
       \<lparr>timeout_listeners :=
          Suc (timeout_listeners (dispatch req
        (External any_path ''bodyParser.json'' # External any_path ''bodyParser.urlencoded''
          # JsonErrorHandler # External any_path ''cors''
          # mounted (auth_layers env) @ mounted (route_layers env) @ [CatchAll])
        None
        \<lparr>effects = [Invoke ''helmet'', Invoke ''helmet.hsts'', Invoke ''helmet.frameguard''],
          timeout_listeners = 0, pending = None\<rparr>))\<rparr>"
  using assms
  by (simp add: build_app_eq prefix_layers_def any_path_def init_ctx_def emit_def Let_def)



lemma responses_invokes [simp]:
  "responses (map Invoke ns) = []" "responses (map (Invoke \<circ> f) xs) = []"
  by (induction ns, simp_all) (induction xs, simp_all)


subsection \<open>Suspended close callbacks\<close>


lemma init_settled_pending:
  "awaiting_db_close (init_settled cfg env r p) = awaiting_db_close p"
  by (cases r; simp add: init_settled_def runExpressServer_fields process_exit_def)

lemma init_settled_grows: "set (trace p) \<subseteq> set (trace (init_settled cfg env r p))"
proof (cases r)
  case InitOk
  obtain xs ys where "trace (runExpressServer cfg env (p\<lparr>awaiting_init := False\<rparr>)) =
       trace (p\<lparr>awaiting_init := False\<rparr>) @ xs @ (if is_master env \<and> 0 < numCPUs cfg
          then replicate (nat (numCPUs cfg)) ClusterFork
          else [HttpCreateServer, ServerListen (port cfg)]) @ ys"
    using runExpressServer_trace by blast
  with InitOk show ?thesis by (simp add: init_settled_def)
next
  case (InitErr e)
  then show ?thesis by (auto simp: init_settled_def process_exit_def)
qed

lemma handlers_grow:
  "set (trace p) \<subseteq> set (trace (on_signal s p))"
  "set (trace p) \<subseteq> set (trace (on_uncaught e p))"
  "set (trace p) \<subseteq> set (trace (serve req p))"
  "set (trace p) \<subseteq> set (trace (probe_settled q p))"
  "set (trace p) \<subseteq> set (trace (timer_phase cfg now tie p))"
  by (auto simp: on_signal_def stopGraceFully_def on_uncaught_def Let_def serve_def
      probe_settled_def timer_phase_def stop_polling_def interval_tick_def
      internalHealthCheck_def split: option.splits probe_outcome.splits)

lemma step_pending_logged:
  assumes "pending_logged p"
  shows "pending_logged (step cfg env p ev)"
proof (cases "exit_code p \<noteq> None")
  case True
  then show ?thesis using assms by (simp add: step_def)
next
  case False
  show ?thesis
  proof (cases ev)
    case (Signal s)
    then show ?thesis
      using assms False handlers_grow(1) [of p s]
      by (auto simp: step_def pending_logged_def on_signal_fields)
  next
    case ServerClosed
    then show ?thesis
      using assms False
      by (auto simp: step_def pending_logged_def on_server_closed_def run_close_listeners_eq
          split: option.splits)
  next
    case (DbInitSettled r)
    then show ?thesis
      using assms False init_settled_grows [of p cfg env r]
      by (auto simp: step_def pending_logged_def init_settled_pending)
  next
    case (DbCloseSettled i r)
    have "set (take i (awaiting_db_close p) @ drop (Suc i) (awaiting_db_close p))
            \<subseteq> set (awaiting_db_close p)"
      using set_take_subset [of i "awaiting_db_close p"]
        set_drop_subset [of "Suc i" "awaiting_db_close p"] by auto
    then show ?thesis
      using assms False DbCloseSettled
      by (auto simp: step_def pending_logged_def on_db_close_settled_def close_callback_end_def
          process_exit_def on_uncaught_def split: close_outcome.splits)
  next
    case (UncaughtException e)
    then show ?thesis
      using assms False handlers_grow(2) [of p e]
      by (auto simp: step_def pending_logged_def on_uncaught_fields)
  next
    case (Incoming req)
    then show ?thesis
      using assms False handlers_grow(3) [of p req]
      by (auto simp: step_def pending_logged_def serve_fields)
  next
    case (TimerPhase now tie)
    then show ?thesis
      using assms False handlers_grow(5) [of p cfg now tie]
      by (auto simp: step_def pending_logged_def timer_phase_fields)
  next
    case (ProbeSettled r)
    then show ?thesis
      using assms False handlers_grow(4) [of p r]
      by (auto simp: step_def pending_logged_def probe_settled_fields)
  qed
qed

lemma run_pending_logged: "pending_logged p \<Longrightarrow> pending_logged (run cfg env p evs)"
  by (induction evs arbitrary: p) (simp_all add: run_Nil run_Cons step_pending_logged)

lemma start_pending_logged: "pending_logged (start now)"
  by (simp add: pending_logged_def start_eq)


lemma pending_after_signals:
  assumes "server (app p) = Some s" and "set sigs \<subseteq> set (signal_handlers p)"
    and "exit_code p = None"
  shows "awaiting_db_close (run cfg env p (map Signal sigs @ [ServerClosed]))
           = awaiting_db_close p @ close_listeners ((server_close ^^ length sigs) s)"
    and "exit_code (run cfg env p (map Signal sigs @ [ServerClosed])) = None"
  using assms
  by (simp_all add: run_append signals_run run_Cons run_Nil step_def on_server_closed_def
      run_close_listeners_eq)

subsection \<open>Handlers that wait\<close>


lemma same_writes_refl [simp]: "same_writes c c"
  by (simp add: same_writes_def)













section \<open>Process topology and startup\<close>

text \<open>
  C4. For every configured worker count \<open>numCPUs cfg \<ge> 0\<close>, once the store is
  initialised: in the original process with a positive count, exactly that many
  \<^verbatim>\<open>cluster.fork()\<close> calls are made over the whole run, no server is created or bound
  and \<^verbatim>\<open>vm.app.server\<close> stays undefined; in a forked child, or with a count of zero,
  no fork is made and the process creates one server and binds it once, to the configured
  port.
\<close>

theorem worker_pool_forker:
  assumes "0 \<le> numCPUs cfg"
  shows "(is_master env \<and> 0 < numCPUs cfg \<longrightarrow>
            startup_effects (run cfg env (start now) (DbInitSettled InitOk # evs))
              = DbInit # replicate (nat (numCPUs cfg)) ClusterFork
          \<and> server (app (run cfg env (start now) (DbInitSettled InitOk # evs))) = None)
       \<and> (\<not> is_master env \<or> numCPUs cfg = 0 \<longrightarrow>
            startup_effects (run cfg env (start now) (DbInitSettled InitOk # evs))
              = [DbInit, HttpCreateServer, ServerListen (port cfg)]
          \<and> server (app (run cfg env (start now) [DbInitSettled InitOk]))
              = Some \<lparr>listening = True, srv_timeout = Some (server_timeout env),
                      close_listeners = []\<rparr>)"
proof -
  let ?p = "runExpressServer cfg env ((start now)\<lparr>awaiting_init := False\<rparr>)"
  have s: "step cfg env (start now) (DbInitSettled InitOk) = ?p"
    by (simp add: step_def start_eq init_settled_def)
  have a: "\<not> awaiting_init ?p"
    by (simp add: runExpressServer_fields)
  have st: "startup_effects ?p = DbInit # (if is_master env \<and> 0 < numCPUs cfg
                          then replicate (nat (numCPUs cfg)) ClusterFork
                          else [HttpCreateServer, ServerListen (port cfg)])"
    by (simp add: init_ok_startup) (simp add: startup_effects_def start_eq)
  have sv: "server (app ?p) = (if is_master env \<and> 0 < numCPUs cfg then None
      else Some \<lparr>listening = True, srv_timeout = Some (server_timeout env), close_listeners = []\<rparr>)"
    by (simp add: runExpressServer_fields)
  show ?thesis
    using run_settled [OF a, of cfg env evs] st sv assms(1) by (auto simp: s run_Cons run_Nil)
qed

theorem worker_pool_forker_witness:
  "0 \<le> numCPUs pool_config \<and> 0 \<le> numCPUs single_config
   \<and> startup_effects (run pool_config sample_env (start 0)
       [DbInitSettled InitOk, TimerPhase 10000 True, Signal SIGTERM])
     = [DbInit, ClusterFork, ClusterFork]
   \<and> server (app (run pool_config sample_env (start 0)
       [DbInitSettled InitOk, TimerPhase 10000 True, Signal SIGTERM])) = None
   \<and> startup_effects (run single_config sample_env (start 0)
       [DbInitSettled InitOk, TimerPhase 10000 True, Signal SIGTERM])
     = [DbInit, HttpCreateServer, ServerListen 8080]"
proof -
  have a: "numCPUs pool_config = 2" "numCPUs single_config = 0" "port single_config = 8080"
    by (simp_all add: pool_config_def single_config_def numCPUs_def)
  have m: "is_master sample_env" by (simp add: sample_env_def)
  show ?thesis
    using worker_pool_forker [of pool_config sample_env 0 "[TimerPhase 10000 True, Signal SIGTERM]"]
      worker_pool_forker [of single_config sample_env 0 "[TimerPhase 10000 True, Signal SIGTERM]"]
      m a
    by (simp add: numeral_2_eq_2)
qed

text \<open>
  C5. When the store's initialisation fails in a live process, the process logs the error
  and exits at once with code 1: nothing is appended to the trace after the exit, whatever
  happens later. Over the whole run \<^verbatim>\<open>init()\<close> was called exactly once (no retry) and
  no server was created or bound, and no child was forked.
\<close>

theorem store_init_failure_is_fatal:
  assumes "\<forall>ev \<in> set pre. \<not> is_init_event ev"
    and "exit_code (run cfg env (start now) pre) = None"
  shows "exit_code (run cfg env (start now) (pre @ DbInitSettled (InitErr e) # post)) = Some 1
       \<and> startup_effects (run cfg env (start now) (pre @ DbInitSettled (InitErr e) # post)) = [DbInit]
       \<and> trace (run cfg env (start now) (pre @ DbInitSettled (InitErr e) # post))
           = trace (run cfg env (start now) pre)
             @ [ConsoleLogError ''Error while server start :: '' (Some e), ProcessExit 1]"
proof -
  let ?q = "run cfg env (start now) pre"
  have b: "startup_effects ?q = [DbInit]" "awaiting_init ?q"
    using run_before_init [OF assms(1), of cfg env "start now"]
    by (simp_all add: startup_effects_def start_eq)
  let ?r = "step cfg env ?q (DbInitSettled (InitErr e))"
  have r: "?r = process_exit 1 (log (ConsoleLogError ''Error while server start :: '' (Some e))
               (?q\<lparr>awaiting_init := False\<rparr>))"
    using assms(2) b(2) by (simp add: step_def init_settled_def)
  have x: "exit_code ?r \<noteq> None" by (simp add: r process_exit_def)
  have "run cfg env (start now) (pre @ DbInitSettled (InitErr e) # post) = ?r"
    using run_exited [OF x] by (simp add: run_append run_Cons)
  then show ?thesis
    using b(1) by (simp add: r process_exit_def startup_effects_def)
qed

theorem store_init_failure_is_fatal_witness:
  "exit_code (run single_config sample_env (start 0)
      ([TimerPhase 10000 True, ProbeSettled (ProbeFailed store_down)]
        @ DbInitSettled (InitErr store_down) # [DbInitSettled InitOk, Signal SIGINT])) = Some 1
   \<and> startup_effects (run single_config sample_env (start 0)
      ([TimerPhase 10000 True, ProbeSettled (ProbeFailed store_down)]
        @ DbInitSettled (InitErr store_down) # [DbInitSettled InitOk, Signal SIGINT])) = [DbInit]"
proof -
  have h1: "\<forall>ev \<in> set [TimerPhase 10000 True, ProbeSettled (ProbeFailed store_down)].
              \<not> is_init_event ev" by simp
  have h2: "exit_code (run single_config sample_env (start 0)
              [TimerPhase 10000 True, ProbeSettled (ProbeFailed store_down)]) = None"
    by (simp add: run_Cons run_Nil step_def start_eq timer_phase_def is_due_def POLL_INTERVAL_def
        pollingDuration_def interval_tick_def internalHealthCheck_def probe_settled_def)
  show ?thesis
    using store_init_failure_is_fatal [OF h1 h2, of store_down "[DbInitSettled InitOk, Signal SIGINT]"]
    by simp
qed

section \<open>Faults and signals\<close>

text \<open>
  C9. In a process that has a server (so \<^verbatim>\<open>runExpressServer\<close> has run) and has not
  exited, uncaught faults are logged and change nothing else: after any number of them the
  process is the same but for one log line per fault, it has not exited, its server and
  its shutdown state are untouched, and a request that arrives next is answered exactly as
  it would have been without the faults.
\<close>

theorem uncaught_fault_is_contained:
  assumes "p = run cfg env (start now) evs"
    and "server (app p) = Some s" and "exit_code p = None"
  shows "run cfg env p (map UncaughtException es) =
           p\<lparr>trace := trace p @ map (\<lambda>e. ConsoleLogError
             ''error :: inside ~function=runExpressServer. ##### SERVER CRASH ##### '' (Some e)) es\<rparr>
       \<and> (listening s \<longrightarrow>
            trace (run cfg env p (map UncaughtException es @ [Incoming req])) =
              trace p @ map (\<lambda>e. ConsoleLogError
               ''error :: inside ~function=runExpressServer. ##### SERVER CRASH ##### '' (Some e)) es
              @ effects (dispatch req (stack (app p)) None init_ctx))"
proof -
  have "server (app (start now)) \<noteq> None \<longrightarrow> uncaught_handler (start now)"
    by (simp add: start_eq empty_app_def)
  from run_keeps_handler [OF this, of cfg env evs] assms(1,2)
  have h: "uncaught_handler p" by simp
  note f = faults_only_log [OF h assms(3), of cfg env es]
  show ?thesis
    using assms(2,3) by (simp add: f run_append run_Cons run_Nil step_def serve_def)
qed

theorem uncaught_fault_is_contained_witness:
  "server (app (run single_config sample_env (start 0) [DbInitSettled InitOk]))
     = Some \<lparr>listening = True, srv_timeout = Some 30000, close_listeners = []\<rparr>
   \<and> exit_code (run single_config sample_env (start 0) [DbInitSettled InitOk]) = None
   \<and> run single_config sample_env (run single_config sample_env (start 0) [DbInitSettled InitOk])
         (map UncaughtException [store_down])
       = (run single_config sample_env (start 0) [DbInitSettled InitOk])
           \<lparr>trace := trace (run single_config sample_env (start 0) [DbInitSettled InitOk])
              @ [ConsoleLogError
                  ''error :: inside ~function=runExpressServer. ##### SERVER CRASH ##### ''
                  (Some store_down)]\<rparr>"
proof -
  have n: "numCPUs single_config = 0"
    by (simp add: single_config_def numCPUs_def)
  have r: "run single_config sample_env (start 0) [DbInitSettled InitOk]
             = runExpressServer single_config sample_env ((start 0)\<lparr>awaiting_init := False\<rparr>)"
    by (simp add: run_Cons run_Nil step_def start_eq init_settled_def)
  have a: "server (app (run single_config sample_env (start 0) [DbInitSettled InitOk]))
     = Some \<lparr>listening = True, srv_timeout = Some 30000, close_listeners = []\<rparr>"
    by (simp add: r runExpressServer_fields n) (simp add: sample_env_def)
  have b: "exit_code (run single_config sample_env (start 0) [DbInitSettled InitOk]) = None"
    by (simp add: r runExpressServer_fields) (simp add: start_eq)
  show ?thesis
    using uncaught_fault_is_contained [OF refl a b, of "[store_down]"] a b by simp
qed

text \<open>
  C10. In the original process of a pool (\<open>numCPUs cfg > 0\<close>), at any later moment:
  the SIGINT and SIGTERM handlers are registered although \<^verbatim>\<open>vm.app.server\<close> is undefined;
  \<^verbatim>\<open>stopGraceFully\<close> throws a TypeError on reading \<^verbatim>\<open>close\<close>; a termination signal
  therefore only logs the signal and the fault, and the trace never holds a
  \<^verbatim>\<open>server.close\<close>, a store close or a \<^verbatim>\<open>process.exit\<close>: the parent does not exit.
\<close>

theorem parent_cannot_shut_down:
  assumes "is_master env" and "0 < numCPUs cfg"
  shows "SIGINT \<in> set (signal_handlers (run cfg env (start now) (DbInitSettled InitOk # evs)))
       \<and> SIGTERM \<in> set (signal_handlers (run cfg env (start now) (DbInitSettled InitOk # evs)))
       \<and> server (app (run cfg env (start now) (DbInitSettled InitOk # evs))) = None
       \<and> stopGraceFully (run cfg env (start now) (DbInitSettled InitOk # evs)) = Inl type_error_close
       \<and> step cfg env (run cfg env (start now) (DbInitSettled InitOk # evs)) (Signal s)
           = log (ConsoleLogError
                    ''error :: inside ~function=runExpressServer. ##### SERVER CRASH ##### ''
                    (Some type_error_close))
               (log (ConsoleLog (signal_name s))
                  (run cfg env (start now) (DbInitSettled InitOk # evs)))
       \<and> filter is_shutdown
            (trace (run cfg env (start now) (DbInitSettled InitOk # evs @ [Signal s]))) = []
       \<and> exit_code (run cfg env (start now) (DbInitSettled InitOk # evs @ [Signal s])) = None"
proof -
  let ?p = "run cfg env (start now) (DbInitSettled InitOk # evs)"
  have p: "parent_state ?p"
    unfolding run_Cons by (rule parent_state_run) (rule parent_state_after_init [OF assms])
  have q: "parent_state (run cfg env (start now) (DbInitSettled InitOk # evs @ [Signal s]))"
    unfolding run_Cons by (rule parent_state_run) (rule parent_state_after_init [OF assms])
  have h: "s \<in> set (signal_handlers ?p)"
    using p by (cases s) (simp_all add: parent_state_def)
  have "step cfg env ?p (Signal s) = on_signal s ?p"
    using p by (simp add: step_def parent_state_def)
  moreover have "on_signal s ?p = log (ConsoleLogError
                    ''error :: inside ~function=runExpressServer. ##### SERVER CRASH ##### ''
                    (Some type_error_close)) (log (ConsoleLog (signal_name s)) ?p)"
    using p h by (simp add: signal_without_server parent_state_def)
  moreover have "stopGraceFully ?p = Inl type_error_close"
    using p by (simp add: stopGraceFully_def parent_state_def)
  ultimately show ?thesis
    using p q by (simp add: parent_state_def)
qed

theorem parent_cannot_shut_down_witness:
  "is_master sample_env \<and> 0 < numCPUs pool_config
   \<and> server (app (run pool_config sample_env (start 0) (DbInitSettled InitOk # [ServerClosed]))) = None
   \<and> stopGraceFully (run pool_config sample_env (start 0) (DbInitSettled InitOk # [ServerClosed]))
       = Inl type_error_close
   \<and> filter is_shutdown (trace (run pool_config sample_env (start 0)
        (DbInitSettled InitOk # [ServerClosed] @ [Signal SIGTERM]))) = []
   \<and> exit_code (run pool_config sample_env (start 0)
        (DbInitSettled InitOk # [ServerClosed] @ [Signal SIGTERM])) = None"
proof -
  have m: "is_master sample_env" by (simp add: sample_env_def)
  have n: "0 < numCPUs pool_config" by (simp add: pool_config_def numCPUs_def)
  show ?thesis
    using parent_cannot_shut_down [OF m n, of 0 "[ServerClosed]" SIGTERM] m n by simp
qed

section \<open>Shutdown\<close>

text \<open>
  C1, as the code has it. A termination signal is never ignored: in a process with a
  server, each of the signals received, the first and every later one, logs the signal and
  calls \<^verbatim>\<open>server.close\<close> with a new callback, and when the server emits
  \<^verbatim>\<open>'close'\<close> the store's \<^verbatim>\<open>close()\<close> is called once for each signal received:
  exactly once when exactly one signal was received.
\<close>

theorem every_signal_repeats_shutdown:
  assumes "\<not> (is_master env \<and> 0 < numCPUs cfg)"
  shows "trace (run cfg env (start now) (DbInitSettled InitOk # map Signal sigs))
           = trace (run cfg env (start now) [DbInitSettled InitOk])
             @ concat (map (\<lambda>sg. [ConsoleLog (signal_name sg), ServerClose]) sigs)
       \<and> count_effect ServerClose
           (trace (run cfg env (start now) (DbInitSettled InitOk # map Signal sigs @ [ServerClosed])))
           = length sigs
       \<and> count_effect DbClose
           (trace (run cfg env (start now) (DbInitSettled InitOk # map Signal sigs @ [ServerClosed])))
           = length sigs"
  using assms by (rule shutdown_per_signal)

theorem every_signal_repeats_shutdown_witness:
  "\<not> (is_master sample_env \<and> 0 < numCPUs single_config)
   \<and> count_effect ServerClose (trace (run single_config sample_env (start 0)
        (DbInitSettled InitOk # map Signal [SIGTERM] @ [ServerClosed]))) = 1
   \<and> count_effect DbClose (trace (run single_config sample_env (start 0)
        (DbInitSettled InitOk # map Signal [SIGTERM] @ [ServerClosed]))) = 1"
proof -
  have h: "\<not> (is_master sample_env \<and> 0 < numCPUs single_config)"
    by (simp add: single_config_def numCPUs_def)
  show ?thesis
    using every_signal_repeats_shutdown [OF h, of 0 "[SIGTERM]"] h by simp
qed

text \<open>
  C1 as stated fails: with SIGINT and then SIGTERM while draining, the second signal appends
  a log line and a second \<^verbatim>\<open>server.close\<close> call to the trace, and the store's
  \<^verbatim>\<open>close()\<close> is called twice.
\<close>

theorem second_signal_counterexample:
  "count_effect DbClose (trace (run single_config sample_env (start 0)
      [DbInitSettled InitOk, Signal SIGINT, Signal SIGTERM, ServerClosed])) = 2
   \<and> trace (run single_config sample_env (start 0)
        [DbInitSettled InitOk, Signal SIGINT, Signal SIGTERM])
     = trace (run single_config sample_env (start 0) [DbInitSettled InitOk, Signal SIGINT])
       @ [ConsoleLog ''SIGTERM received'', ServerClose]"
proof -
  have h: "\<not> (is_master sample_env \<and> 0 < numCPUs single_config)"
    by (simp add: single_config_def numCPUs_def)
  show ?thesis
    using shutdown_per_signal [OF h, of 0 "[SIGINT, SIGTERM]"]
      shutdown_per_signal [OF h, of 0 "[SIGINT]"]
    by (simp add: signal_name_def)
qed

text \<open>
  C2, as the code has it. At any moment of any run in which the process is alive, for each
  close callback that is suspended on its store close (it has logged the argument the
  server gave it): when that store close resolves, the callback logs and calls
  \<^verbatim>\<open>process.exit\<close> with code 0 if it was given no listener-close error and with code 1
  if it was given one. With several callbacks suspended, the exit code is that of the one
  whose store close resolves first.
\<close>

theorem exit_code_follows_listener_close:
  assumes "exit_code (run cfg env (start now) evs) = None"
    and "i < length (awaiting_db_close (run cfg env (start now) evs))"
  shows "ConsoleLogError ''inside ~function=runExpressServerserver is closed''
           (awaiting_db_close (run cfg env (start now) evs) ! i)
           \<in> set (trace (run cfg env (start now) evs))
       \<and> exit_code (run cfg env (start now) (evs @ [DbCloseSettled i CloseResolved]))
           = Some (if awaiting_db_close (run cfg env (start now) evs) ! i = None then 0 else 1)
       \<and> trace (run cfg env (start now) (evs @ [DbCloseSettled i CloseResolved]))
           = trace (run cfg env (start now) evs)
             @ [ConsoleDebug ''server is closed'',
                ProcessExit (if awaiting_db_close (run cfg env (start now) evs) ! i = None
                             then 0 else 1)]"
proof -
  let ?p = "run cfg env (start now) evs"
  have "pending_logged ?p"
    by (rule run_pending_logged) (rule start_pending_logged)
  moreover have "awaiting_db_close ?p ! i \<in> set (awaiting_db_close ?p)"
    using assms(2) by simp
  ultimately have l: "ConsoleLogError ''inside ~function=runExpressServerserver is closed''
           (awaiting_db_close ?p ! i) \<in> set (trace ?p)"
    by (simp add: pending_logged_def)
  have "run cfg env (start now) (evs @ [DbCloseSettled i CloseResolved])
          = step cfg env ?p (DbCloseSettled i CloseResolved)"
    by (simp add: run_append run_Cons run_Nil)
  then show ?thesis
    using assms l
    by (simp add: step_def on_db_close_settled_def close_callback_end_def process_exit_def)
qed

theorem exit_code_follows_listener_close_witness:
  "exit_code (run single_config sample_env (start 0)
      ([DbInitSettled InitOk, Signal SIGINT, Signal SIGTERM, ServerClosed]
        @ [DbCloseSettled 0 CloseResolved])) = Some 0
   \<and> exit_code (run single_config sample_env (start 0)
      ([DbInitSettled InitOk, Signal SIGINT, Signal SIGTERM, ServerClosed]
        @ [DbCloseSettled 1 CloseResolved])) = Some 1"
proof -
  have h: "\<not> (is_master sample_env \<and> 0 < numCPUs single_config)"
    by (simp add: single_config_def numCPUs_def)
  note w = worker_after_init [OF h, where now=0]
  let ?p = "run single_config sample_env (start 0) [DbInitSettled InitOk]"
  have sub: "set [SIGINT, SIGTERM] \<subseteq> set (signal_handlers ?p)"
    by (simp add: w(2))
  have e: "run single_config sample_env (start 0)
             [DbInitSettled InitOk, Signal SIGINT, Signal SIGTERM, ServerClosed]
           = run single_config sample_env ?p (map Signal [SIGINT, SIGTERM] @ [ServerClosed])"
    by (simp add: run_Cons run_Nil)
  have a: "awaiting_db_close (run single_config sample_env (start 0)
             [DbInitSettled InitOk, Signal SIGINT, Signal SIGTERM, ServerClosed])
           = [None, Some err_server_not_running]"
    unfolding e pending_after_signals(1) [OF w(1) sub w(3)]
    by (simp add: w(4) numeral_2_eq_2 server_close_def)
  have x: "exit_code (run single_config sample_env (start 0)
             [DbInitSettled InitOk, Signal SIGINT, Signal SIGTERM, ServerClosed]) = None"
    unfolding e by (rule pending_after_signals(2) [OF w(1) sub w(3)])
  have i0: "0 < length (awaiting_db_close (run single_config sample_env (start 0)
             [DbInitSettled InitOk, Signal SIGINT, Signal SIGTERM, ServerClosed]))"
    and i1: "1 < length (awaiting_db_close (run single_config sample_env (start 0)
             [DbInitSettled InitOk, Signal SIGINT, Signal SIGTERM, ServerClosed]))"
    by (simp_all add: a)
  show ?thesis
    using exit_code_follows_listener_close [OF x i0] exit_code_follows_listener_close [OF x i1]
    by (simp add: a)
qed

text \<open>
  C2 as stated fails: when the listener closes cleanly and the store's \<^verbatim>\<open>close()\<close>
  rejects, the callback stops at its \<^verbatim>\<open>await\<close>; the rejection is logged as a fault and
  no \<^verbatim>\<open>process.exit\<close> is called, so the exit code is not 1.
\<close>

theorem store_close_error_counterexample:
  "exit_code (run single_config sample_env (start 0)
      [DbInitSettled InitOk, Signal SIGTERM, ServerClosed,
       DbCloseSettled 0 (CloseRejected store_down)])
     = None
   \<and> filter is_exit (trace (run single_config sample_env (start 0)
      [DbInitSettled InitOk, Signal SIGTERM, ServerClosed,
       DbCloseSettled 0 (CloseRejected store_down)]))
     = []"
proof -
  have h: "\<not> (is_master sample_env \<and> 0 < numCPUs single_config)"
    by (simp add: single_config_def numCPUs_def)
  note w = worker_after_init [OF h, where now=0]
  let ?p = "run single_config sample_env (start 0) [DbInitSettled InitOk]"
  have c: "close_listeners \<lparr>listening = True, srv_timeout = Some (server_timeout sample_env),
             close_listeners = []\<rparr> = []" by simp
  have g: "SIGTERM \<in> set (signal_handlers ?p)"
    by (simp add: w(2))
  have u: "uncaught_handler ?p"
    by (simp add: run_Cons run_Nil step_def start_eq init_settled_def runExpressServer_fields)
  have x: "filter is_exit (trace ?p) = []"
  proof -
    have "\<forall>e \<in> set (trace ?p). \<not> is_shutdown e" using w(5) by (simp add: filter_empty_conv)
    moreover have "\<And>e. is_exit e \<Longrightarrow> is_shutdown e" by (erule is_exit.elims) simp
    ultimately show ?thesis by (auto simp: filter_empty_conv)
  qed
  have e: "run single_config sample_env (start 0)
      [DbInitSettled InitOk, Signal SIGTERM, ServerClosed,
       DbCloseSettled 0 (CloseRejected store_down)]
     = step single_config sample_env (run single_config sample_env ?p [Signal SIGTERM, ServerClosed])
         (DbCloseSettled 0 (CloseRejected store_down))"
    by (simp add: run_Cons run_Nil)
  show ?thesis
    unfolding e using w(3) x u
    by (simp add: shutdown_run [OF w(1) c w(4) g w(3)] step_def on_db_close_settled_def
        close_callback_end_def on_uncaught_def)
qed

section \<open>The health probe loop\<close>

text \<open>
  C8. From \<^verbatim>\<open>Worker.start\<close> on, whatever happens (any events, any clock values, any
  outcomes of the probes), the number of probe attempts never exceeds the window divided
  by the interval, rounded up (30 for the 300000 ms window and the 10000 ms interval).
  Once the one-shot timer has run, no later event makes a probe. A probe that fails is
  logged with \<^verbatim>\<open>console.error\<close> and changes nothing else: the timers and the process
  go on.
\<close>

theorem probe_loop_is_bounded:
  "probe_attempts (run cfg env (start now) evs)
     \<le> (pollingDuration + POLL_INTERVAL - 1) div POLL_INTERVAL
   \<and> (poll_timeout (run cfg env (start now) evs) = None \<longrightarrow>
        probe_attempts (run cfg env (start now) (evs @ later))
          = probe_attempts (run cfg env (start now) evs))
   \<and> (exit_code (run cfg env (start now) evs) = None
        \<and> 0 < probes_in_flight (run cfg env (start now) evs) \<longrightarrow>
        step cfg env (run cfg env (start now) evs) (ProbeSettled (ProbeFailed e))
          = (log (ConsoleError ''Health check failed:'' e) (run cfg env (start now) evs))
              \<lparr>probes_in_flight := probes_in_flight (run cfg env (start now) evs) - 1\<rparr>)"
proof -
  let ?p = "run cfg env (start now) evs"
  have inv: "probe_inv now ?p"
    by (rule run_probe_inv) (rule start_probe_inv)
  then have "probe_attempts ?p * POLL_INTERVAL \<le> pollingDuration"
    by (simp add: probe_inv_def)
  then have b: "probe_attempts ?p \<le> (pollingDuration + POLL_INTERVAL - 1) div POLL_INTERVAL"
    by (simp add: POLL_INTERVAL_def pollingDuration_def)
  have w: "probe_attempts (run cfg env (start now) (evs @ later)) = probe_attempts ?p"
    if "poll_timeout ?p = None"
  proof -
    have "poll_interval ?p = None"
      using inv that by (cases "poll_interval ?p") (simp_all add: probe_inv_def)
    from run_after_window [OF this that, of cfg env later] show ?thesis
      by (simp add: run_append)
  qed
  have f: "step cfg env ?p (ProbeSettled (ProbeFailed e))
          = (log (ConsoleError ''Health check failed:'' e) ?p)
              \<lparr>probes_in_flight := probes_in_flight ?p - 1\<rparr>"
    if "exit_code ?p = None" "0 < probes_in_flight ?p"
    using that by (simp add: step_def probe_settled_def log_def)
  show ?thesis using b w f by blast
qed

theorem probe_loop_is_bounded_witness:
  "poll_timeout (run single_config sample_env (start 0) [TimerPhase 300000 True]) = None
   \<and> probe_attempts (run single_config sample_env (start 0)
        ([TimerPhase 300000 True] @ [TimerPhase 400000 True]))
       = probe_attempts (run single_config sample_env (start 0) [TimerPhase 300000 True])
   \<and> exit_code (run single_config sample_env (start 0) [TimerPhase 10000 True]) = None
   \<and> 0 < probes_in_flight (run single_config sample_env (start 0) [TimerPhase 10000 True])
   \<and> poll_interval (step single_config sample_env
          (run single_config sample_env (start 0) [TimerPhase 10000 True])
          (ProbeSettled (ProbeFailed store_down))) = Some 20000
   \<and> probe_attempts (run single_config sample_env (start 0)
        [TimerPhase 10000 True, ProbeSettled (ProbeFailed store_down), TimerPhase 20000 True]) = 2"
proof -
  have a: "run single_config sample_env (start 0) [TimerPhase 300000 True]
             = (start 0)\<lparr>trace := trace (start 0) @ [AxiosGet 8080,
                   ConsoleLog ''Stopped polling after 5 minutes.''],
                 probes_in_flight := 1, poll_interval := None, poll_timeout := None\<rparr>"
    by (simp add: run_Cons run_Nil step_def start_eq timer_phase_def is_due_def
        POLL_INTERVAL_def pollingDuration_def interval_tick_def internalHealthCheck_def
        stop_polling_def log_def single_config_def)
  have b: "run single_config sample_env (start 0) [TimerPhase 10000 True]
             = (start 0)\<lparr>trace := trace (start 0) @ [AxiosGet 8080],
                 probes_in_flight := 1, poll_interval := Some 20000\<rparr>"
    by (simp add: run_Cons run_Nil step_def start_eq timer_phase_def is_due_def
        POLL_INTERVAL_def pollingDuration_def interval_tick_def internalHealthCheck_def
        log_def single_config_def)
  have c: "probe_attempts (run single_config sample_env (start 0)
        [TimerPhase 10000 True, ProbeSettled (ProbeFailed store_down), TimerPhase 20000 True]) = 2"
    by (simp add: run_Cons run_Nil step_def start_eq timer_phase_def is_due_def
        POLL_INTERVAL_def pollingDuration_def interval_tick_def internalHealthCheck_def
        probe_settled_def log_def single_config_def probe_attempts_def)
  have h1: "poll_timeout (run single_config sample_env (start 0) [TimerPhase 300000 True]) = None"
    by (simp add: a)
  have h2: "exit_code (run single_config sample_env (start 0) [TimerPhase 10000 True]) = None"
    "0 < probes_in_flight (run single_config sample_env (start 0) [TimerPhase 10000 True])"
    unfolding b by (simp_all add: start_eq)
  show ?thesis
    using probe_loop_is_bounded [of single_config sample_env 0 "[TimerPhase 300000 True]"
        "[TimerPhase 400000 True]" store_down]
      probe_loop_is_bounded [of single_config sample_env 0 "[TimerPhase 10000 True]"
        "[]" store_down]
      h1 h2 c
    by (simp add: b)
qed

section \<open>The request pipeline\<close>

text \<open>
  C3 does not hold of app.js. The filter's guard \<^verbatim>\<open>if (!req.timedout)\<close> is evaluated
  once, when the request enters, and nothing sets \<^verbatim>\<open>req.timedout\<close>; the listener only
  answers. So a later handler still writes: a request whose JSON body is still being
  received when the server's timeout fires (the runtime emits \<^verbatim>\<open>'timeout'\<close> on such a
  request, with the socket as argument, which the concatenation renders as
  \<^verbatim>\<open>[object Object]\<close>) is answered SERVER_TIMEOUT by the listener; when the body then
  arrives and is malformed, the JSON error handler of line 93 calls \<^verbatim>\<open>res.sendJson\<close> on
  the same response, with INVALID_REQUEST.
\<close>

theorem second_write_after_timeout:
  "responses (effects (handle_request (stack (build_app sample_env)) stalled_request
      [Timeout ''[object Object]'', Resume (ExtError malformed)]))
     = [server_timedout_payload ''[object Object]'', invalid_request_payload]"
proof -
  have a: "behaviour stalled_request ''helmet'' = ExtNext"
    "behaviour stalled_request ''helmet.hsts'' = ExtNext"
    "behaviour stalled_request ''helmet.frameguard'' = ExtNext"
    "\<not> timedout stalled_request"
    by (simp_all add: stalled_request_def slow_body_def)
  have p: "behaviour stalled_request ''bodyParser.json'' = ExtPending"
    by (simp add: stalled_request_def slow_body_def)
  have d: "dispatch stalled_request (stack (build_app sample_env)) None init_ctx
             = \<lparr>effects = map Invoke [''helmet'', ''helmet.hsts'', ''helmet.frameguard'',
                   ''bodyParser.json''],
                timeout_listeners = 1,
                pending = Some (External any_path ''bodyParser.urlencoded'' # JsonErrorHandler
                   # External any_path ''cors''
                   # mounted (auth_layers sample_env) @ mounted (route_layers sample_env)
                   @ [CatchAll])\<rparr>"
    using p by (simp add: dispatch_through_filter [OF a] any_path_def emit_def)
  have m: "is_json_parse_error malformed"
    by (simp add: is_json_parse_error_def malformed_def)
  show ?thesis
    unfolding handle_request_def d
    by (simp add: m emit_def on_timeout_def resume_def)
qed





end
